theory Spec2Isabelle
  imports Complex_Main "HOL-Library.AList"
begin

section \<open>Values, records and errors\<close>

text \<open>
  The script \<^verbatim>\<open>scripts/download-hf-datasets.py\<close> iterates over dataset rows, which the
  dataset library hands over as Python dictionaries from field names to values. A value
  is None, a bool, an int, a (finite) float, a str, a list or a dictionary with string
  keys. Python ints are unbounded, so \<open>VInt\<close> carries an \<open>int\<close>; a float is
  represented by the real number it denotes (infinities and NaN are outside the model).
\<close>

datatype val =
    VNone
  | VBool bool
  | VInt int
  | VFloat real
  | VStr string
  | VList "val list"
  | VDict "(string \<times> val) list"

type_synonym item = "(string \<times> val) list"

text \<open>Every exception the script can meet is a value; \<open>Inl\<close> of a sum is a raise.\<close>

datatype error =
    KeyError val
  | TypeError
  | IndexError
  | OverflowError
  | OSError string
  | DatasetError string

text \<open>
  The two parts of the interpreter that the script relies on and that are not fixed
  here: the rounding of a real number to the nearest float (\<open>fround\<close>), applied after
  every float operation, and the text that string formatting produces for floats and
  containers (\<open>repr\<close>).
\<close>

record python =
  fround :: "real \<Rightarrow> real"
  repr :: "val \<Rightarrow> string"

subsection \<open>Subscripting, truthiness, dictionary keys\<close>

text \<open>\<^verbatim>\<open>item["field"]\<close> on a row: KeyError when the field is absent.\<close>

definition getitem :: "item \<Rightarrow> string \<Rightarrow> error + val" where
  "getitem item k = (case map_of item k of None \<Rightarrow> Inl (KeyError (VStr k)) | Some v \<Rightarrow> Inr v)"

text \<open>\<^verbatim>\<open>"field" in item\<close> and \<^verbatim>\<open>item.get("field", default)\<close>.\<close>

definition contains :: "item \<Rightarrow> string \<Rightarrow> bool" where
  "contains item k = (map_of item k \<noteq> None)"

definition get_default :: "item \<Rightarrow> string \<Rightarrow> val \<Rightarrow> val" where
  "get_default item k d = (case map_of item k of None \<Rightarrow> d | Some v \<Rightarrow> v)"

text \<open>
  \<^verbatim>\<open>v["text"]\<close> and \<^verbatim>\<open>v[0]\<close> on an arbitrary value. A dictionary of the model has
  string keys only, so an integer subscript is a missing key.
\<close>

fun getitem_key :: "val \<Rightarrow> string \<Rightarrow> error + val" where
  "getitem_key (VDict d) k = getitem d k"
| "getitem_key v k = Inl TypeError"

definition str_digit :: "nat \<Rightarrow> char" where
  "str_digit d = ''0123456789'' ! (d mod 10)"

text \<open>\<^verbatim>\<open>str(n)\<close> for a natural number: its decimal digits, most significant first.\<close>

fun str_nat :: "nat \<Rightarrow> string" where
  "str_nat n = (if n < 10 then [str_digit n] else str_nat (n div 10) @ [str_digit (n mod 10)])"

declare str_nat.simps [simp del]

definition str_int :: "int \<Rightarrow> string" where
  "str_int i = (if i < 0 then CHR ''-'' # str_nat (nat (- i)) else str_nat (nat i))"

fun getitem_index :: "val \<Rightarrow> nat \<Rightarrow> error + val" where
  "getitem_index (VList xs) n = (if n < length xs then Inr (xs ! n) else Inl IndexError)"
| "getitem_index (VStr s) n = (if n < length s then Inr (VStr [s ! n]) else Inl IndexError)"
| "getitem_index (VDict d) n = Inl (KeyError (VInt (int n)))"
| "getitem_index v n = Inl TypeError"

text \<open>The truth value of an object in an \<^verbatim>\<open>if\<close>.\<close>

fun truthy :: "val \<Rightarrow> bool" where
  "truthy VNone = False"
| "truthy (VBool b) = b"
| "truthy (VInt i) = (i \<noteq> 0)"
| "truthy (VFloat x) = (x \<noteq> 0)"
| "truthy (VStr s) = (s \<noteq> [])"
| "truthy (VList xs) = (xs \<noteq> [])"
| "truthy (VDict d) = (d \<noteq> [])"

text \<open>
  A value used as a dictionary key: lists and dictionaries are unhashable (TypeError);
  bools, ints and floats that are numerically equal are the same key.
\<close>

datatype key = KNone | KNum real | KStr string

fun hash_key :: "val \<Rightarrow> error + key" where
  "hash_key VNone = Inr KNone"
| "hash_key (VBool b) = Inr (KNum (if b then 1 else 0))"
| "hash_key (VInt i) = Inr (KNum (of_int i))"
| "hash_key (VFloat x) = Inr (KNum x)"
| "hash_key (VStr s) = Inr (KStr s)"
| "hash_key (VList xs) = Inl TypeError"
| "hash_key (VDict d) = Inl TypeError"

text \<open>
  \<^verbatim>\<open>score / 5.0\<close>: true division by the float 5.0. A bool or an int is converted to
  a float first, which overflows for an int that does not round into the float range;
  anything that is not a number raises TypeError.
\<close>

definition float_of_int :: "python \<Rightarrow> int \<Rightarrow> error + real" where
  "float_of_int py i =
     (if \<bar>i\<bar> < 2 ^ 1024 - 2 ^ 970 then Inr (fround py (of_int i)) else Inl OverflowError)"

fun truediv5 :: "python \<Rightarrow> val \<Rightarrow> error + real" where
  "truediv5 py (VFloat x) = Inr (fround py (x / 5))"
| "truediv5 py (VInt i) =
     (case float_of_int py i of Inl e \<Rightarrow> Inl e | Inr x \<Rightarrow> Inr (fround py (x / 5)))"
| "truediv5 py (VBool b) =
     (case float_of_int py (if b then 1 else 0) of Inl e \<Rightarrow> Inl e
      | Inr x \<Rightarrow> Inr (fround py (x / 5)))"
| "truediv5 py v = Inl TypeError"

text \<open>What an f-string substitutes for a value.\<close>

fun format_val :: "python \<Rightarrow> val \<Rightarrow> string" where
  "format_val py (VStr s) = s"
| "format_val py (VInt i) = str_int i"
| "format_val py (VBool b) = (if b then ''True'' else ''False'')"
| "format_val py VNone = ''None''"
| "format_val py v = repr py v"

section \<open>The normalized entities\<close>

text \<open>
  One line of \<^verbatim>\<open>queries.jsonl\<close> and one line of \<^verbatim>\<open>corpus.jsonl\<close>. The JSON keys
  \<^verbatim>\<open>"id"\<close> and \<^verbatim>\<open>"query"\<close> are the fields \<open>qid\<close>/\<open>docid\<close> and \<open>query_text\<close>.
\<close>

record query =
  qid :: string
  query_text :: val
  relevantDocs :: "string list"
  relevanceScores :: "real list"
  tags :: "string list"

record document =
  docid :: string
  content :: val
  metadata :: "(string \<times> val) list"

type_synonym batch = "query list \<times> document list"

subsection \<open>Raising and looping\<close>

text \<open>Sequencing of two computations of which the first may raise.\<close>

definition attempt :: "error + 'a \<Rightarrow> ('a \<Rightarrow> error + 'b) \<Rightarrow> error + 'b" where
  "attempt m f = (case m of Inl e \<Rightarrow> Inl e | Inr x \<Rightarrow> f x)"

text \<open>A \<^verbatim>\<open>for\<close> loop over a list whose body may raise: the first raise ends the loop.\<close>

fun for_each :: "('s \<Rightarrow> 'a \<Rightarrow> error + 's) \<Rightarrow> 'a list \<Rightarrow> 's \<Rightarrow> error + 's" where
  "for_each body [] s = Inr s"
| "for_each body (x # xs) s = attempt (body s x) (for_each body xs)"

section \<open>STS-17\<close>

text \<open>
  The body of the loop of \<^verbatim>\<open>download_mteb_sts17\<close> on the row \<open>item\<close> at position \<open>i\<close>,
  and the loop itself, started from two empty lists. The fields are read in the order
  in which the two dictionary displays evaluate them.
\<close>

definition sts17_body :: "python \<Rightarrow> batch \<Rightarrow> nat \<times> item \<Rightarrow> error + batch" where
  "sts17_body py s p =
     (let (queries, corpus) = s; (i, item) = p;
          query_id = ''sts17-en-en-'' @ str_nat i in
      attempt (getitem item ''sentence1'') (\<lambda>sentence1.
      attempt (getitem item ''score'') (\<lambda>score.
      attempt (truediv5 py score) (\<lambda>normalized.
      let queries = queries @
            [\<lparr>qid = query_id, query_text = sentence1,
              relevantDocs = [''sts17-doc-'' @ str_nat i],
              relevanceScores = [normalized],
              tags = [''sts'', ''en-en'']\<rparr>] in
      attempt (getitem item ''sentence2'') (\<lambda>sentence2.
      attempt (getitem item ''score'') (\<lambda>score.
      Inr (queries,
           corpus @
            [\<lparr>docid = ''sts17-doc-'' @ str_nat i, content = sentence2,
              metadata = [(''score'', score)]\<rparr>])))))))"

definition sts17_loop :: "python \<Rightarrow> item list \<Rightarrow> error + batch" where
  "sts17_loop py dataset = for_each (sts17_body py) (enumerate 0 dataset) ([], [])"

section \<open>SQuAD\<close>

text \<open>
  A Python dictionary is an insertion-ordered association list: \<open>map_of\<close> reads it,
  \<open>AList.update\<close> is the assignment \<^verbatim>\<open>d[k] = v\<close>, \<open>length\<close> is \<^verbatim>\<open>len(d)\<close> (the
  assignment keeps the keys distinct). The keys of the deduplication tables of SQuAD and
  Quora are hashed values.
\<close>

type_synonym seen = "(key \<times> string) list"

text \<open>\<^verbatim>\<open>d[v]\<close> on a deduplication table.\<close>

definition dict_getitem :: "seen \<Rightarrow> val \<Rightarrow> error + string" where
  "dict_getitem d v =
     attempt (hash_key v) (\<lambda>k.
     case map_of d k of None \<Rightarrow> Inl (KeyError v) | Some x \<Rightarrow> Inr x)"

text \<open>The body of the loop of \<^verbatim>\<open>download_squad_sample\<close>.\<close>

definition squad_body ::
  "query list \<times> document list \<times> seen \<Rightarrow> nat \<times> item \<Rightarrow> error + query list \<times> document list \<times> seen"
where
  "squad_body s p =
     (let (queries, corpus, seen_contexts) = s; (i, item) = p in
      attempt (getitem item ''context'') (\<lambda>context.
      attempt (hash_key context) (\<lambda>k.
      attempt
        (case map_of seen_contexts k of
           None \<Rightarrow>
             (let doc_id = ''squad-doc-'' @ str_nat (length seen_contexts);
                  seen_contexts = AList.update k doc_id seen_contexts in
              attempt (getitem item ''title'') (\<lambda>title.
              Inr (doc_id,
                   corpus @
                    [\<lparr>docid = doc_id, content = context, metadata = [(''title'', title)]\<rparr>],
                   seen_contexts)))
         | Some doc_id \<Rightarrow> Inr (doc_id, corpus, seen_contexts))
        (\<lambda>(doc_id, corpus, seen_contexts).
      attempt (getitem item ''question'') (\<lambda>question.
      Inr (queries @
            [\<lparr>qid = ''squad-q-'' @ str_nat i, query_text = question,
              relevantDocs = [doc_id], relevanceScores = [1],
              tags = [''qa'', ''squad'']\<rparr>],
           corpus, seen_contexts))))))"

definition squad_loop :: "item list \<Rightarrow> error + batch" where
  "squad_loop dataset =
     attempt (for_each squad_body (enumerate 0 dataset) ([], [], []))
       (\<lambda>(queries, corpus, seen_contexts). Inr (queries, corpus))"

section \<open>Quora\<close>

text \<open>The inner loop over \<^verbatim>\<open>[q1, q2]\<close>, then the body of the loop over the rows.\<close>

definition quora_add :: "document list \<times> seen \<Rightarrow> val \<Rightarrow> error + document list \<times> seen" where
  "quora_add s q =
     (let (corpus, seen_questions) = s in
      attempt (hash_key q) (\<lambda>k.
      if map_of seen_questions k = None then
        (let q_id = ''quora-q-'' @ str_nat (length seen_questions);
             seen_questions = AList.update k q_id seen_questions in
         Inr (corpus @ [\<lparr>docid = q_id, content = q, metadata = []\<rparr>], seen_questions))
      else Inr (corpus, seen_questions)))"

text \<open>\<^verbatim>\<open>item["questions"]["text"][n]\<close>\<close>

definition quora_question :: "item \<Rightarrow> nat \<Rightarrow> error + val" where
  "quora_question item n =
     attempt (getitem item ''questions'') (\<lambda>questions.
     attempt (getitem_key questions ''text'') (\<lambda>text.
     getitem_index text n))"

definition quora_body ::
  "query list \<times> document list \<times> seen \<Rightarrow> nat \<times> item \<Rightarrow> error + query list \<times> document list \<times> seen"
where
  "quora_body s p =
     (let (queries, corpus, seen_questions) = s; (i, item) = p in
      attempt (quora_question item 0) (\<lambda>q1.
      attempt (quora_question item 1) (\<lambda>q2.
      attempt (getitem item ''is_duplicate'') (\<lambda>is_duplicate.
      attempt (for_each quora_add [q1, q2] (corpus, seen_questions))
        (\<lambda>(corpus, seen_questions).
      if truthy is_duplicate then
        attempt (dict_getitem seen_questions q1) (\<lambda>q1_id.
        attempt (dict_getitem seen_questions q2) (\<lambda>q2_id.
        Inr (queries @
              [\<lparr>qid = ''quora-pair-'' @ str_nat i, query_text = q1,
                relevantDocs = [q2_id], relevanceScores = [1],
                tags = [''duplicate'', ''quora'']\<rparr>],
             corpus, seen_questions)))
      else Inr (queries, corpus, seen_questions))))))"

definition quora_loop :: "item list \<Rightarrow> error + batch" where
  "quora_loop dataset =
     attempt (for_each quora_body (enumerate 0 dataset) ([], [], []))
       (\<lambda>(queries, corpus, seen_questions). Inr (queries, corpus))"

section \<open>NFCorpus\<close>

text \<open>
  The body of the loop of \<^verbatim>\<open>download_nfcorpus_sample\<close>. Its table \<^verbatim>\<open>seen_docs\<close> is
  keyed by the synthesized document ID, a string.
\<close>

definition nfcorpus_body ::
  "python \<Rightarrow> query list \<times> document list \<times> (string \<times> bool) list \<Rightarrow> nat \<times> item \<Rightarrow>
     error + query list \<times> document list \<times> (string \<times> bool) list"
where
  "nfcorpus_body py s p =
     (let (queries, corpus, seen_docs) = s; (i, item) = p in
      attempt (getitem item ''query'') (\<lambda>query.
      let relevant = []; scores = [] in
      attempt
        (if contains item ''corpus-id'' then
           attempt (getitem item ''corpus-id'') (\<lambda>corpus_id.
           let doc_id = ''nfcorpus-'' @ format_val py corpus_id;
               relevant = relevant @ [doc_id];
               scores = scores @ [1] in
           if map_of seen_docs doc_id = None then
             (let seen_docs = AList.update doc_id True seen_docs in
              Inr (relevant, scores,
                   corpus @
                    [\<lparr>docid = doc_id,
                      content = get_default item ''corpus-text'' (VStr (''Document '' @ doc_id)),
                      metadata = [(''medical'', VBool True)]\<rparr>],
                   seen_docs))
           else Inr (relevant, scores, corpus, seen_docs))
         else Inr (relevant, scores, corpus, seen_docs))
        (\<lambda>(relevant, scores, corpus, seen_docs).
      if relevant \<noteq> [] then
        Inr (queries @
              [\<lparr>qid = ''nfcorpus-q-'' @ str_nat i, query_text = query,
                relevantDocs = relevant, relevanceScores = scores,
                tags = [''medical'', ''nfcorpus'']\<rparr>],
             corpus, seen_docs)
      else Inr (queries, corpus, seen_docs))))"

definition nfcorpus_loop :: "python \<Rightarrow> item list \<Rightarrow> error + batch" where
  "nfcorpus_loop py dataset =
     attempt (for_each (nfcorpus_body py) (enumerate 0 dataset) ([], [], []))
       (\<lambda>(queries, corpus, seen_docs). Inr (queries, corpus))"

section \<open>The built-in sample\<close>

text \<open>
  The two literals of \<^verbatim>\<open>create_sample_dataset\<close>. A score such as \<^verbatim>\<open>0.8\<close> is written as the
  decimal fraction of the source text.
\<close>

definition sample_queries :: "query list" where
  "sample_queries =
     [\<lparr>qid = ''q1'', query_text = VStr ''What is machine learning?'',
       relevantDocs = [''d1'', ''d2''], relevanceScores = [1, 8 / 10],
       tags = [''technical'']\<rparr>,
      \<lparr>qid = ''q2'', query_text = VStr ''How to bake sourdough bread?'',
       relevantDocs = [''d3''], relevanceScores = [1], tags = [''cooking'']\<rparr>,
      \<lparr>qid = ''q3'', query_text = VStr ''Best Python web frameworks'',
       relevantDocs = [''d4'', ''d5''], relevanceScores = [1, 9 / 10],
       tags = [''programming'']\<rparr>,
      \<lparr>qid = ''q4'', query_text = VStr ''Climate change effects'',
       relevantDocs = [''d6''], relevanceScores = [1], tags = [''science'']\<rparr>,
      \<lparr>qid = ''q5'', query_text = VStr ''Introduction to quantum computing'',
       relevantDocs = [''d7'', ''d8''], relevanceScores = [1, 7 / 10],
       tags = [''technical'']\<rparr>]"

definition sample_corpus :: "document list" where
  "sample_corpus =
     [\<lparr>docid = ''d1'',
       content = VStr ''Machine learning is a subset of artificial intelligence that enables computers to learn from data without explicit programming.'',
       metadata = [(''category'', VStr ''ai'')]\<rparr>,
      \<lparr>docid = ''d2'',
       content = VStr ''Deep learning uses neural networks with multiple layers to model complex patterns in data.'',
       metadata = [(''category'', VStr ''ai'')]\<rparr>,
      \<lparr>docid = ''d3'',
       content = VStr ''Sourdough bread requires a starter culture of wild yeast and bacteria to ferment the dough.'',
       metadata = [(''category'', VStr ''cooking'')]\<rparr>,
      \<lparr>docid = ''d4'',
       content = VStr ''Django is a high-level Python web framework that encourages rapid development and clean design.'',
       metadata = [(''category'', VStr ''programming'')]\<rparr>,
      \<lparr>docid = ''d5'',
       content = VStr ''Flask is a lightweight Python web framework that is easy to get started with.'',
       metadata = [(''category'', VStr ''programming'')]\<rparr>,
      \<lparr>docid = ''d6'',
       content = VStr ''Climate change refers to long-term shifts in global temperatures and weather patterns.'',
       metadata = [(''category'', VStr ''science'')]\<rparr>,
      \<lparr>docid = ''d7'',
       content = VStr ''Quantum computing uses quantum bits or qubits to perform calculations exponentially faster.'',
       metadata = [(''category'', VStr ''physics'')]\<rparr>,
      \<lparr>docid = ''d8'',
       content = VStr ''Quantum mechanics describes the behavior of matter and energy at the atomic scale.'',
       metadata = [(''category'', VStr ''physics'')]\<rparr>]"

section \<open>Files, the dataset hub and the adapters\<close>

text \<open>
  What the script finds around it: whether the \<^verbatim>\<open>datasets\<close> library can be imported, what
  \<^verbatim>\<open>load_dataset\<close> returns or raises for its arguments, and which paths cannot be created
  or opened for writing. The files that have been written are the state: a file holds
  the list of entities that \<^verbatim>\<open>save_jsonl\<close> serialized into it, one per line. A write
  either fails when the file is opened or is complete. Printing is not modelled: the
  standard output is taken to accept every line.
\<close>

record world =
  datasets_installed :: bool
  hub :: "string list \<Rightarrow> error + item list"
  blocked :: "string \<Rightarrow> bool"

datatype entity = QueryLine query | DocLine document

type_synonym files = "string \<rightharpoonup> entity list"

definition then_io ::
  "(error + 'a) \<times> files \<Rightarrow> ('a \<Rightarrow> files \<Rightarrow> (error + 'b) \<times> files) \<Rightarrow> (error + 'b) \<times> files"
where
  "then_io r f = (case r of (Inl e, fs) \<Rightarrow> (Inl e, fs) | (Inr x, fs) \<Rightarrow> f x fs)"

definition load_dataset :: "world \<Rightarrow> string list \<Rightarrow> files \<Rightarrow> (error + item list) \<times> files" where
  "load_dataset w args fs = (hub w args, fs)"

definition ensure_dir :: "world \<Rightarrow> string \<Rightarrow> files \<Rightarrow> (error + unit) \<times> files" where
  "ensure_dir w path fs = (if blocked w path then (Inl (OSError path), fs) else (Inr (), fs))"

definition save_jsonl :: "world \<Rightarrow> entity list \<Rightarrow> string \<Rightarrow> files \<Rightarrow> (error + unit) \<times> files" where
  "save_jsonl w data filepath fs =
     (if blocked w filepath then (Inl (OSError filepath), fs)
      else (Inr (), fs(filepath \<mapsto> data)))"

text \<open>\<^verbatim>\<open>try: ... return True  except Exception as e: ... return False\<close>\<close>

definition except_false :: "(error + bool) \<times> files \<Rightarrow> bool \<times> files" where
  "except_false r = (case r of (Inl e, fs) \<Rightarrow> (False, fs) | (Inr b, fs) \<Rightarrow> (b, fs))"

text \<open>Creating the directory and writing the two files of a batch.\<close>

definition write_batch ::
  "world \<Rightarrow> string \<Rightarrow> string \<Rightarrow> string \<Rightarrow> batch \<Rightarrow> files \<Rightarrow> (error + bool) \<times> files"
where
  "write_batch w dir queries_path corpus_path b fs =
     (let (queries, corpus) = b in
      then_io (ensure_dir w dir fs) (\<lambda>_ fs.
      then_io (save_jsonl w (map QueryLine queries) queries_path fs) (\<lambda>_ fs.
      then_io (save_jsonl w (map DocLine corpus) corpus_path fs) (\<lambda>_ fs.
      (Inr True, fs)))))"

definition download_mteb_sts17 :: "python \<Rightarrow> world \<Rightarrow> files \<Rightarrow> bool \<times> files" where
  "download_mteb_sts17 py w fs =
     except_false
       (then_io (load_dataset w [''mteb/sts17-crosslingual-sts'', ''en-en'', ''test''] fs)
          (\<lambda>dataset fs.
        then_io (sts17_loop py dataset, fs) (\<lambda>b fs.
        write_batch w ''datasets/mteb'' ''datasets/mteb/sts17-en-en-queries.jsonl''
          ''datasets/mteb/sts17-en-en-corpus.jsonl'' b fs)))"

definition download_squad_sample :: "world \<Rightarrow> files \<Rightarrow> bool \<times> files" where
  "download_squad_sample w fs =
     except_false
       (then_io (load_dataset w [''squad'', ''validation[:100]''] fs) (\<lambda>dataset fs.
        then_io (squad_loop dataset, fs) (\<lambda>b fs.
        write_batch w ''datasets/squad'' ''datasets/squad/queries.jsonl''
          ''datasets/squad/corpus.jsonl'' b fs)))"

definition download_quora_sample :: "world \<Rightarrow> files \<Rightarrow> bool \<times> files" where
  "download_quora_sample w fs =
     except_false
       (then_io (load_dataset w [''quora'', ''train[:200]''] fs) (\<lambda>dataset fs.
        then_io (quora_loop dataset, fs) (\<lambda>b fs.
        write_batch w ''datasets/quora'' ''datasets/quora/queries.jsonl''
          ''datasets/quora/corpus.jsonl'' b fs)))"

definition download_nfcorpus_sample :: "python \<Rightarrow> world \<Rightarrow> files \<Rightarrow> bool \<times> files" where
  "download_nfcorpus_sample py w fs =
     except_false
       (then_io (load_dataset w [''mteb/nfcorpus'', ''test[:100]''] fs) (\<lambda>dataset fs.
        then_io (nfcorpus_loop py dataset, fs) (\<lambda>b fs.
        write_batch w ''datasets/nfcorpus'' ''datasets/nfcorpus/queries.jsonl''
          ''datasets/nfcorpus/corpus.jsonl'' b fs)))"

text \<open>\<^verbatim>\<open>create_sample_dataset\<close> has no \<^verbatim>\<open>try\<close>: what its writes raise leaves the function.\<close>

definition create_sample_dataset :: "world \<Rightarrow> files \<Rightarrow> (error + bool) \<times> files" where
  "create_sample_dataset w fs =
     write_batch w ''datasets/sample'' ''datasets/sample/queries.jsonl''
       ''datasets/sample/corpus.jsonl'' (sample_queries, sample_corpus) fs"

section \<open>The entry point\<close>

text \<open>
  \<^verbatim>\<open>main\<close> collects the five results in a dictionary and returns whether the number of
  true ones is the size of the dictionary. The module exits with status 1 when the
  import at its top fails, and otherwise with 0 or 1 after \<^verbatim>\<open>main\<close>; an exception that
  leaves \<^verbatim>\<open>main\<close> ends the interpreter with status 1.
\<close>

definition main :: "python \<Rightarrow> world \<Rightarrow> files \<Rightarrow> (error + bool) \<times> files" where
  "main py w fs =
     (let results = [] in
      then_io (create_sample_dataset w fs) (\<lambda>r fs.
      let results = AList.update ''sample'' r results;
          (r, fs) = download_mteb_sts17 py w fs;
          results = AList.update ''sts17'' r results;
          (r, fs) = download_squad_sample w fs;
          results = AList.update ''squad'' r results;
          (r, fs) = download_quora_sample w fs;
          results = AList.update ''quora'' r results;
          (r, fs) = download_nfcorpus_sample py w fs;
          results = AList.update ''nfcorpus'' r results;
          successful = length (filter (\<lambda>s. s) (map snd results))
      in (Inr (successful = length results), fs)))"

definition script :: "python \<Rightarrow> world \<Rightarrow> files \<Rightarrow> nat \<times> files" where
  "script py w fs =
     (if \<not> datasets_installed w then (1, fs)
      else case main py w fs of
             (Inl e, fs) \<Rightarrow> (1, fs)
           | (Inr success, fs) \<Rightarrow> (if success then 0 else 1, fs))"

section \<open>The five adapters, indexed\<close>

datatype adapter = Sample | Sts17 | Squad | Quora | Nfcorpus

text \<open>The batch that an adapter builds from the rows it was given, before writing it.\<close>

fun normalize :: "adapter \<Rightarrow> python \<Rightarrow> item list \<Rightarrow> error + batch" where
  "normalize Sample py dataset = Inr (sample_queries, sample_corpus)"
| "normalize Sts17 py dataset = sts17_loop py dataset"
| "normalize Squad py dataset = squad_loop dataset"
| "normalize Quora py dataset = quora_loop dataset"
| "normalize Nfcorpus py dataset = nfcorpus_loop py dataset"

text \<open>The result of an adapter as \<^verbatim>\<open>main\<close> receives it: a raise, or the boolean.\<close>

fun run :: "adapter \<Rightarrow> python \<Rightarrow> world \<Rightarrow> files \<Rightarrow> (error + bool) \<times> files" where
  "run Sample py w fs = create_sample_dataset w fs"
| "run Sts17 py w fs = apfst Inr (download_mteb_sts17 py w fs)"
| "run Squad py w fs = apfst Inr (download_squad_sample w fs)"
| "run Quora py w fs = apfst Inr (download_quora_sample w fs)"
| "run Nfcorpus py w fs = apfst Inr (download_nfcorpus_sample py w fs)"

text \<open>
  The arguments with which an adapter calls \<^verbatim>\<open>load_dataset\<close> (the sample calls nothing), and
  the directory, the queries file and the corpus file it writes.
\<close>

fun hub_args :: "adapter \<Rightarrow> string list" where
  "hub_args Sample = []"
| "hub_args Sts17 = [''mteb/sts17-crosslingual-sts'', ''en-en'', ''test'']"
| "hub_args Squad = [''squad'', ''validation[:100]'']"
| "hub_args Quora = [''quora'', ''train[:200]'']"
| "hub_args Nfcorpus = [''mteb/nfcorpus'', ''test[:100]'']"

fun batch_paths :: "adapter \<Rightarrow> string \<times> string \<times> string" where
  "batch_paths Sample =
     (''datasets/sample'', ''datasets/sample/queries.jsonl'', ''datasets/sample/corpus.jsonl'')"
| "batch_paths Sts17 =
     (''datasets/mteb'', ''datasets/mteb/sts17-en-en-queries.jsonl'',
      ''datasets/mteb/sts17-en-en-corpus.jsonl'')"
| "batch_paths Squad =
     (''datasets/squad'', ''datasets/squad/queries.jsonl'', ''datasets/squad/corpus.jsonl'')"
| "batch_paths Quora =
     (''datasets/quora'', ''datasets/quora/queries.jsonl'', ''datasets/quora/corpus.jsonl'')"
| "batch_paths Nfcorpus =
     (''datasets/nfcorpus'', ''datasets/nfcorpus/queries.jsonl'',
      ''datasets/nfcorpus/corpus.jsonl'')"

section \<open>Invariants of the loops\<close>

text \<open>
  The deduplication table of SQuAD and Quora and the corpus built so far, in step: the
  table lists, in the order of insertion, the key of the content and the ID of every
  document, the IDs are the prefix followed by 0, 1, 2, ..., and no key occurs twice.
\<close>

definition table_mirrors :: "string \<Rightarrow> seen \<Rightarrow> document list \<Rightarrow> bool" where
  "table_mirrors prefix seen corpus \<longleftrightarrow>
     map (\<lambda>d. (hash_key (content d), docid d)) corpus = map (\<lambda>(k, v). (Inr k, v)) seen \<and>
     map snd seen = map (\<lambda>n. prefix @ str_nat n) [0..<length seen] \<and>
     distinct (map fst seen)"

section \<open>Example rows\<close>

text \<open>
  Small datasets on which the loops are evaluated: an interpreter whose rounding is exact
  on the numbers used, two STS-17 rows with the same second sentence, two SQuAD rows with
  the same context and one with another, three
  Quora pairs of which the first and the last are duplicates and share their second
  question, and three NFCorpus rows of which the first has no \<^verbatim>\<open>corpus-id\<close> and the other
  two name the same document.
\<close>

definition example_python :: python where
  "example_python = \<lparr>fround = (\<lambda>x. x), repr = (\<lambda>v. [])\<rparr>"

definition example_sts17 :: "item list" where
  "example_sts17 =
     [[(''sentence1'', VStr ''a''), (''sentence2'', VStr ''same''), (''score'', VFloat 5)],
      [(''sentence1'', VStr ''b''), (''sentence2'', VStr ''same''), (''score'', VInt 0)]]"

definition example_squad :: "item list" where
  "example_squad =
     [[(''context'', VStr ''same text''), (''title'', VStr ''T''), (''question'', VStr ''q0'')],
      [(''context'', VStr ''same text''), (''title'', VStr ''T''), (''question'', VStr ''q1'')],
      [(''context'', VStr ''other''), (''title'', VStr ''U''), (''question'', VStr ''q2'')]]"

definition example_quora :: "item list" where
  "example_quora =
     [[(''questions'', VDict [(''text'', VList [VStr ''a'', VStr ''b''])]),
       (''is_duplicate'', VBool True)],
      [(''questions'', VDict [(''text'', VList [VStr ''c'', VStr ''d''])]),
       (''is_duplicate'', VBool False)],
      [(''questions'', VDict [(''text'', VList [VStr ''e'', VStr ''b''])]),
       (''is_duplicate'', VBool True)]]"

definition example_nfcorpus :: "item list" where
  "example_nfcorpus =
     [[(''query'', VStr ''q0'')],
      [(''query'', VStr ''q1''), (''corpus-id'', VStr ''MED-1'')],
      [(''query'', VStr ''q2''), (''corpus-id'', VStr ''MED-1''), (''corpus-text'', VStr ''x'')]]"

text \<open>
  A hub that serves the example rows, a world in which every path can be written, and the
  same world with the directory of the built-in sample blocked.
\<close>

definition example_hub :: "string list \<Rightarrow> error + item list" where
  "example_hub args =
     (if args = [''mteb/sts17-crosslingual-sts'', ''en-en'', ''test''] then Inr example_sts17
      else if args = [''squad'', ''validation[:100]''] then Inr example_squad
      else if args = [''quora'', ''train[:200]''] then Inr example_quora
      else if args = [''mteb/nfcorpus'', ''test[:100]''] then Inr example_nfcorpus
      else Inl (DatasetError (concat args)))"

definition example_world :: world where
  "example_world = \<lparr>datasets_installed = True, hub = example_hub, blocked = (\<lambda>path. False)\<rparr>"

definition sample_blocked_world :: world where
  "sample_blocked_world =
     \<lparr>datasets_installed = True, hub = example_hub,
      blocked = (\<lambda>path. path = ''datasets/sample'')\<rparr>"

text \<open>
  An NFCorpus dataset without a \<^verbatim>\<open>corpus-text\<close> column (every row has the same fields), and
  a world whose hub serves it.
\<close>

definition example_no_text :: "item list" where
  "example_no_text =
     [[(''query'', VStr ''q0''), (''corpus-id'', VStr ''MED-1'')],
      [(''query'', VStr ''q1''), (''corpus-id'', VStr ''MED-2'')]]"

definition no_text_world :: world where
  "no_text_world =
     \<lparr>datasets_installed = True, hub = (\<lambda>args. Inr example_no_text),
      blocked = (\<lambda>path. False)\<rparr>"

text \<open>A world whose hub serves, for every dataset, one row without any field.\<close>

definition empty_row_world :: world where
  "empty_row_world =
     \<lparr>datasets_installed = True, hub = (\<lambda>args. Inr [[]]), blocked = (\<lambda>path. False)\<rparr>"

section \<open>Auxiliary facts\<close>

subsection \<open>Decimal numerals determine the number\<close>

lemma str_digit_inj: "a < 10 \<Longrightarrow> b < 10 \<Longrightarrow> str_digit a = str_digit b \<Longrightarrow> a = b"
proof -
  assume a: "a < 10" and b: "b < 10" and e: "str_digit a = str_digit b"
  have d: "distinct ''0123456789''" by simp
  have "''0123456789'' ! a = ''0123456789'' ! b" using a b e by (simp add: str_digit_def)
  with d a b show "a = b" by (simp add: nth_eq_iff_index_eq)
qed

lemma str_nat_nonempty: "str_nat n \<noteq> []" "[] \<noteq> str_nat n"
  by (subst str_nat.simps, simp)+

lemma str_nat_inj: "str_nat n = str_nat m \<Longrightarrow> n = m"
proof (induction n arbitrary: m rule: str_nat.induct)
  case (1 n)
  show ?case
  proof (cases "n < 10")
    case n: True
    show ?thesis
    proof (cases "m < 10")
      case True
      with n "1.prems" show ?thesis
        by (auto simp: str_nat.simps [of n] str_nat.simps [of m] dest: str_digit_inj)
    next
      case False
      with n "1.prems" show ?thesis
        by (simp add: str_nat.simps [of n] str_nat.simps [of m] str_nat_nonempty)
    qed
  next
    case n: False
    show ?thesis
    proof (cases "m < 10")
      case True
      with n "1.prems" show ?thesis
        by (simp add: str_nat.simps [of n] str_nat.simps [of m] str_nat_nonempty)
    next
      case False
      with n "1.prems" have e: "str_nat (n div 10) = str_nat (m div 10)"
        and d: "str_digit (n mod 10) = str_digit (m mod 10)"
        by (simp_all add: str_nat.simps [of n] str_nat.simps [of m])
      from "1.IH" [OF n e] have "n div 10 = m div 10" .
      moreover from d have "n mod 10 = m mod 10"
        by (rule str_digit_inj [rotated 2]) simp_all
      ultimately show ?thesis by (metis div_mult_mod_eq)
    qed
  qed
qed

lemma str_nat_eq_iff [simp]: "str_nat n = str_nat m \<longleftrightarrow> n = m"
  by (auto dest: str_nat_inj)

subsection \<open>Raising and looping\<close>

lemma attempt_Inr_iff: "attempt m f = Inr y \<longleftrightarrow> (\<exists>x. m = Inr x \<and> f x = Inr y)"
  by (cases m) (simp_all add: attempt_def)

lemma attempt_Inl [simp]: "attempt (Inl e) f = Inl e"
  by (simp add: attempt_def)

lemma attempt_Inr [simp]: "attempt (Inr x) f = f x"
  by (simp add: attempt_def)

text \<open>
  An invariant of a loop over \<^verbatim>\<open>enumerate(dataset)\<close>: it may mention the position, and it
  has to be preserved only by the iterations that return.
\<close>

lemma for_each_enumerate_inv:
  assumes "for_each body (enumerate k xs) s = Inr s'"
    and "I k s"
    and "\<And>i t t'. k \<le> i \<Longrightarrow> i < k + length xs \<Longrightarrow> I i t \<Longrightarrow>
           body t (i, xs ! (i - k)) = Inr t' \<Longrightarrow> I (Suc i) t'"
  shows "I (k + length xs) s'"
  using assms
proof (induction xs arbitrary: k s)
  case Nil
  then show ?case by simp
next
  case (Cons x xs)
  from Cons.prems(1) obtain t where t: "body s (k, x) = Inr t"
    and r: "for_each body (enumerate (Suc k) xs) t = Inr s'"
    by (auto simp: attempt_Inr_iff)
  have "I (Suc k) t"
    using Cons.prems(3) [of k s t] Cons.prems(2) t by simp
  moreover have "\<And>i u u'. Suc k \<le> i \<Longrightarrow> i < Suc k + length xs \<Longrightarrow> I i u \<Longrightarrow>
           body u (i, xs ! (i - Suc k)) = Inr u' \<Longrightarrow> I (Suc i) u'"
  proof -
    fix i u u'
    assume h: "Suc k \<le> i" "i < Suc k + length xs" "I i u" "body u (i, xs ! (i - Suc k)) = Inr u'"
    from h(1) have "(x # xs) ! (i - k) = xs ! (i - Suc k)"
      by (simp add: nth_Cons' Suc_le_eq)
    with Cons.prems(3) [of i u u'] h show "I (Suc i) u'" by simp
  qed
  ultimately have "I (Suc k + length xs) s'"
    using Cons.IH [OF r] by blast
  then show ?case by simp
qed

text \<open>A row on which the body raises in every state makes the whole loop raise.\<close>

lemma for_each_raises:
  assumes "x \<in> set xs" and "\<And>s. \<exists>e. body s x = Inl e"
  shows "\<exists>e. for_each body xs s = Inl e"
  using assms(1)
proof (induction xs arbitrary: s)
  case Nil
  then show ?case by simp
next
  case (Cons y ys)
  show ?case
  proof (cases "body s y")
    case (Inl e)
    then show ?thesis by simp
  next
    case (Inr t)
    show ?thesis
    proof (cases "x = y")
      case True
      with assms(2) [of s] Inr show ?thesis by simp
    next
      case False
      with Cons.prems have "x \<in> set ys" by simp
      from Cons.IH [OF this, of t] Inr show ?thesis by simp
    qed
  qed
qed

subsection \<open>STS-17: what one iteration appends\<close>

lemma sts17_body_Inr:
  assumes "sts17_body py (qs, cs) (i, item) = Inr t"
  shows "\<exists>s1 sc y s2.
           getitem item ''sentence1'' = Inr s1 \<and> getitem item ''score'' = Inr sc \<and>
           truediv5 py sc = Inr y \<and> getitem item ''sentence2'' = Inr s2 \<and>
           t = (qs @ [\<lparr>qid = ''sts17-en-en-'' @ str_nat i, query_text = s1,
                       relevantDocs = [''sts17-doc-'' @ str_nat i], relevanceScores = [y],
                       tags = [''sts'', ''en-en'']\<rparr>],
                cs @ [\<lparr>docid = ''sts17-doc-'' @ str_nat i, content = s2,
                       metadata = [(''score'', sc)]\<rparr>])"
  using assms by (auto simp: sts17_body_def attempt_Inr_iff)

lemma sts17_loop_rows:
  assumes "sts17_loop py ds = Inr (qs, cs)"
  shows "length qs = length ds \<and> length cs = length ds \<and>
         (\<forall>j<length ds.
            qid (qs ! j) = ''sts17-en-en-'' @ str_nat j \<and>
            relevantDocs (qs ! j) = [''sts17-doc-'' @ str_nat j] \<and>
            docid (cs ! j) = ''sts17-doc-'' @ str_nat j \<and>
            getitem (ds ! j) ''sentence2'' = Inr (content (cs ! j)) \<and>
            (\<exists>sc y. getitem (ds ! j) ''score'' = Inr sc \<and> truediv5 py sc = Inr y \<and>
                    relevanceScores (qs ! j) = [y]))"
proof -
  let ?I = "\<lambda>i (t :: batch). length (fst t) = i \<and> length (snd t) = i \<and>
         (\<forall>j<i.
            qid (fst t ! j) = ''sts17-en-en-'' @ str_nat j \<and>
            relevantDocs (fst t ! j) = [''sts17-doc-'' @ str_nat j] \<and>
            docid (snd t ! j) = ''sts17-doc-'' @ str_nat j \<and>
            getitem (ds ! j) ''sentence2'' = Inr (content (snd t ! j)) \<and>
            (\<exists>sc y. getitem (ds ! j) ''score'' = Inr sc \<and> truediv5 py sc = Inr y \<and>
                    relevanceScores (fst t ! j) = [y]))"
  have "?I (0 + length ds) (qs, cs)"
  proof (rule for_each_enumerate_inv [where I = ?I and body = "sts17_body py"])
    show "for_each (sts17_body py) (enumerate 0 ds) ([], []) = Inr (qs, cs)"
      using assms by (simp add: sts17_loop_def)
    show "?I 0 ([], [])" by simp
  next
    fix i t t'
    assume i: "i < 0 + length ds" and inv: "?I i t"
      and step: "sts17_body py t (i, ds ! (i - 0)) = Inr t'"
    obtain qs0 cs0 where t: "t = (qs0, cs0)" by (cases t)
    from sts17_body_Inr [OF step [unfolded t]] inv t show "?I (Suc i) t'"
      by (auto simp: nth_append less_Suc_eq)
  qed
  then show ?thesis by simp
qed

subsection \<open>Small numerals, and the bounds of a rounded quotient\<close>

lemma str_nat_small:
  "str_nat 0 = ''0''" "str_nat (Suc 0) = ''1''" "str_nat 1 = ''1''" "str_nat 2 = ''2''" "str_nat 3 = ''3''"
  by (simp_all add: str_nat.simps str_digit_def)

lemma truediv5_bounds:
  assumes m: "mono (fround py)" and z: "fround py 0 = 0" and o: "fround py 1 = 1"
    and "0 \<le> x" "x \<le> 5"
  shows "0 \<le> fround py (x / 5) \<and> fround py (x / 5) \<le> 1"
proof -
  have "fround py 0 \<le> fround py (x / 5)" using assms(4) by (intro monoD [OF m]) simp
  moreover have "fround py (x / 5) \<le> fround py 1" using assms(5) by (intro monoD [OF m]) simp
  ultimately show ?thesis using z o by simp
qed

subsection \<open>Dictionaries as association lists\<close>

lemma update_absent: "map_of al k = None \<Longrightarrow> AList.update k v al = al @ [(k, v)]"
  by (induction al) (auto split: if_splits)

lemma distinct_numbered: "distinct (map (\<lambda>n. prefix @ str_nat n) [0..<m])"
  by (simp add: distinct_map inj_on_def)

lemma filter_eq_single: "distinct xs \<Longrightarrow> x \<in> set xs \<Longrightarrow> filter (\<lambda>e. e = x) xs = [x]"
  by (induction xs) (auto simp: filter_empty_conv)

subsection \<open>The deduplication table\<close>

lemma table_mirrors_empty: "table_mirrors prefix [] []"
  by (simp add: table_mirrors_def)

lemma table_mirrors_insert:
  assumes "table_mirrors prefix seen cs" and "map_of seen k = None" and "hash_key c = Inr k"
  shows "table_mirrors prefix (seen @ [(k, prefix @ str_nat (length seen))])
           (cs @ [\<lparr>docid = prefix @ str_nat (length seen), content = c, metadata = m\<rparr>])"
  using assms by (auto simp: table_mirrors_def map_of_eq_None_iff)

lemma table_mirrors_length: "table_mirrors prefix seen cs \<Longrightarrow> length cs = length seen"
  unfolding table_mirrors_def by (metis length_map)

lemma table_mirrors_docids:
  assumes "table_mirrors prefix seen cs"
  shows "map docid cs = map (\<lambda>n. prefix @ str_nat n) [0..<length cs]"
proof -
  have "map docid cs = map snd (map (\<lambda>d. (hash_key (content d), docid d)) cs)"
    by simp
  also have "\<dots> = map snd (map (\<lambda>(k, v). (Inr k :: error + key, v)) seen)"
    using assms by (simp only: table_mirrors_def)
  also have "\<dots> = map snd seen" by (simp add: case_prod_beta)
  finally show ?thesis
    using assms table_mirrors_length [OF assms] by (simp add: table_mirrors_def)
qed

lemma table_mirrors_keys:
  assumes "table_mirrors prefix seen cs"
  shows "map (\<lambda>d. hash_key (content d)) cs = map (\<lambda>p. Inr (fst p)) seen"
proof -
  have "map (\<lambda>d. hash_key (content d)) cs = map fst (map (\<lambda>d. (hash_key (content d), docid d)) cs)"
    by simp
  also have "\<dots> = map fst (map (\<lambda>(k, v). (Inr k :: error + key, v)) seen)"
    using assms by (simp only: table_mirrors_def)
  also have "\<dots> = map (\<lambda>p. Inr (fst p)) seen" by (simp add: case_prod_beta)
  finally show ?thesis .
qed

lemma table_mirrors_distinct_keys:
  assumes "table_mirrors prefix seen cs"
  shows "distinct (map (\<lambda>d. hash_key (content d)) cs)"
proof -
  have "distinct (map (\<lambda>p. Inr (fst p) :: error + key) seen)"
    using assms by (simp add: table_mirrors_def distinct_map inj_on_def)
  then show ?thesis by (simp add: table_mirrors_keys [OF assms])
qed

lemma table_mirrors_lookup:
  assumes "table_mirrors prefix seen cs" and "map_of seen k = Some v"
  shows "\<exists>d\<in>set cs. docid d = v \<and> hash_key (content d) = Inr k"
proof -
  from assms(2) have "(k, v) \<in> set seen" by (rule map_of_SomeD)
  then have "(Inr k, v) \<in> set (map (\<lambda>(k, v). (Inr k :: error + key, v)) seen)" by force
  then have "(Inr k, v) \<in> set (map (\<lambda>d. (hash_key (content d), docid d)) cs)"
    using assms(1) by (simp only: table_mirrors_def)
  then show ?thesis by auto
qed

lemma table_mirrors_stored:
  assumes "table_mirrors prefix seen cs" and "d \<in> set cs" and "hash_key (content d) = Inr k"
  shows "map_of seen k = Some (docid d)"
proof -
  from assms(2,3) have "(Inr k, docid d) \<in> set (map (\<lambda>d. (hash_key (content d), docid d)) cs)"
    by force
  then have "(Inr k, docid d) \<in> set (map (\<lambda>(k, v). (Inr k :: error + key, v)) seen)"
    using assms(1) by (simp only: table_mirrors_def)
  then have "(k, docid d) \<in> set seen" by auto
  moreover have "distinct (map fst seen)" using assms(1) by (simp add: table_mirrors_def)
  ultimately show ?thesis by simp
qed

text \<open>In a corpus that is in step with a table, a key that is in the table has exactly one document.\<close>

lemma table_mirrors_unique:
  assumes "table_mirrors prefix seen cs" and "map_of seen k = Some v"
  shows "\<exists>d. filter (\<lambda>d. hash_key (content d) = Inr k) cs = [d] \<and> docid d = v"
proof -
  from table_mirrors_lookup [OF assms] obtain d where d: "d \<in> set cs" "docid d = v"
    "hash_key (content d) = Inr k" by blast
  have inj: "inj_on (\<lambda>d. hash_key (content d)) (set cs)"
    using table_mirrors_distinct_keys [OF assms(1)] by (simp add: distinct_map)
  have dist: "distinct cs"
    using table_mirrors_distinct_keys [OF assms(1)] by (simp add: distinct_map)
  have "(hash_key (content e) = Inr k) = (e = d)" if "e \<in> set cs" for e
    using inj d that by (auto simp: inj_on_def)
  then have "filter (\<lambda>e. hash_key (content e) = Inr k) cs = filter (\<lambda>e. e = d) cs"
    by (intro filter_cong refl)
  also have "\<dots> = [d]"
    using dist d(1) by (rule filter_eq_single)
  finally show ?thesis using d(2) by blast
qed

subsection \<open>SQuAD: what one iteration does\<close>

lemma squad_body_Inr:
  assumes "squad_body (qs, cs, seen) (i, item) = Inr t"
  shows "\<exists>c k question v.
           getitem item ''context'' = Inr c \<and> hash_key c = Inr k \<and>
           getitem item ''question'' = Inr question \<and>
           ((map_of seen k = None \<and> v = ''squad-doc-'' @ str_nat (length seen) \<and>
             (\<exists>title. getitem item ''title'' = Inr title \<and>
                t = (qs @ [\<lparr>qid = ''squad-q-'' @ str_nat i, query_text = question,
                            relevantDocs = [v], relevanceScores = [1],
                            tags = [''qa'', ''squad'']\<rparr>],
                     cs @ [\<lparr>docid = v, content = c, metadata = [(''title'', title)]\<rparr>],
                     seen @ [(k, v)]))) \<or>
            (map_of seen k = Some v \<and>
             t = (qs @ [\<lparr>qid = ''squad-q-'' @ str_nat i, query_text = question,
                         relevantDocs = [v], relevanceScores = [1],
                         tags = [''qa'', ''squad'']\<rparr>],
                  cs, seen)))"
proof -
  from assms obtain c k where c: "getitem item ''context'' = Inr c" "hash_key c = Inr k"
    by (auto simp: squad_body_def attempt_Inr_iff)
  show ?thesis
  proof (cases "map_of seen k")
    case None
    with assms c show ?thesis
      by (auto simp: squad_body_def attempt_Inr_iff update_absent Let_def)
  next
    case (Some v)
    with assms c show ?thesis
      by (auto simp: squad_body_def attempt_Inr_iff)
  qed
qed

lemma map_of_snoc_old: "map_of al k' = Some v' \<Longrightarrow> map_of (al @ [(k, v)]) k' = Some v'"
  by (simp add: map_add_Some_iff)

lemma map_of_snoc_new: "map_of al k = None \<Longrightarrow> map_of (al @ [(k, v)]) k = Some v"
  by (simp add: map_add_Some_iff)

lemma squad_loop_rows:
  assumes "squad_loop ds = Inr (qs, cs)"
  shows "\<exists>seen. table_mirrors ''squad-doc-'' seen cs \<and> length qs = length ds \<and>
           (\<forall>j<length ds.
              qid (qs ! j) = ''squad-q-'' @ str_nat j \<and> relevanceScores (qs ! j) = [1] \<and>
              (\<exists>c k v. getitem (ds ! j) ''context'' = Inr c \<and> hash_key c = Inr k \<and>
                       map_of seen k = Some v \<and> relevantDocs (qs ! j) = [v]))"
proof -
  let ?row = "\<lambda>seen q j. qid q = ''squad-q-'' @ str_nat j \<and> relevanceScores q = [1] \<and>
              (\<exists>c k v. getitem (ds ! j) ''context'' = Inr c \<and> hash_key c = Inr k \<and>
                       map_of seen k = Some v \<and> relevantDocs q = [v])"
  let ?I = "\<lambda>i (t :: query list \<times> document list \<times> seen).
     case t of (qs, cs, seen) \<Rightarrow>
       table_mirrors ''squad-doc-'' seen cs \<and> length qs = i \<and> (\<forall>j<i. ?row seen (qs ! j) j)"
  from assms obtain seen where
    loop: "for_each squad_body (enumerate 0 ds) ([], [], []) = Inr (qs, cs, seen)"
    by (auto simp: squad_loop_def attempt_Inr_iff)
  have "?I (0 + length ds) (qs, cs, seen)"
  proof (rule for_each_enumerate_inv [where I = ?I, OF loop])
    show "?I 0 ([], [], [])" by (simp add: table_mirrors_empty)
  next
    fix i t t'
    assume i: "i < 0 + length ds" and inv: "?I i t"
      and step: "squad_body t (i, ds ! (i - 0)) = Inr t'"
    obtain qs0 cs0 seen0 where t: "t = (qs0, cs0, seen0)" by (cases t)
    from inv t have tm: "table_mirrors ''squad-doc-'' seen0 cs0" and len: "length qs0 = i"
      and old: "\<And>j. j < i \<Longrightarrow> ?row seen0 (qs0 ! j) j" by auto
    from squad_body_Inr [OF step [unfolded t]] obtain c k question v where
      c: "getitem (ds ! i) ''context'' = Inr c" "hash_key c = Inr k" and
      cases: "(map_of seen0 k = None \<and> v = ''squad-doc-'' @ str_nat (length seen0) \<and>
             (\<exists>title. 
                t' = (qs0 @ [\<lparr>qid = ''squad-q-'' @ str_nat i, query_text = question,
                            relevantDocs = [v], relevanceScores = [1],
                            tags = [''qa'', ''squad'']\<rparr>],
                     cs0 @ [\<lparr>docid = v, content = c, metadata = [(''title'', title)]\<rparr>],
                     seen0 @ [(k, v)]))) \<or>
            (map_of seen0 k = Some v \<and>
             t' = (qs0 @ [\<lparr>qid = ''squad-q-'' @ str_nat i, query_text = question,
                         relevantDocs = [v], relevanceScores = [1],
                         tags = [''qa'', ''squad'']\<rparr>],
                  cs0, seen0))"
      by auto
    from cases show "?I (Suc i) t'"
    proof (elim disjE conjE exE)
      fix title
      assume new: "map_of seen0 k = None" and v: "v = ''squad-doc-'' @ str_nat (length seen0)"
        and t': "t' = (qs0 @ [\<lparr>qid = ''squad-q-'' @ str_nat i, query_text = question,
                            relevantDocs = [v], relevanceScores = [1],
                            tags = [''qa'', ''squad'']\<rparr>],
                     cs0 @ [\<lparr>docid = v, content = c, metadata = [(''title'', title)]\<rparr>],
                     seen0 @ [(k, v)])"
      have tm': "table_mirrors ''squad-doc-'' (seen0 @ [(k, v)])
                  (cs0 @ [\<lparr>docid = v, content = c, metadata = [(''title'', title)]\<rparr>])"
        unfolding v by (rule table_mirrors_insert [OF tm new c(2)])
      have "?row (seen0 @ [(k, v)]) (qs0 ! j) j" if "j < i" for j
        using old [OF that] by (auto intro: map_of_snoc_old)
      moreover have "map_of (seen0 @ [(k, v)]) k = Some v"
        using new by (rule map_of_snoc_new)
      ultimately show ?thesis
        using t' tm' len c by (auto simp: nth_append less_Suc_eq)
    next
      assume hit: "map_of seen0 k = Some v"
        and t': "t' = (qs0 @ [\<lparr>qid = ''squad-q-'' @ str_nat i, query_text = question,
                         relevantDocs = [v], relevanceScores = [1],
                         tags = [''qa'', ''squad'']\<rparr>],
                  cs0, seen0)"
      show ?thesis
        using t' tm len c hit old by (auto simp: nth_append less_Suc_eq)
    qed
  qed
  then show ?thesis by auto
qed

subsection \<open>Quora: what one iteration does\<close>

lemma dict_getitem_Inr_iff:
  "dict_getitem d c = Inr v \<longleftrightarrow> (\<exists>k. hash_key c = Inr k \<and> map_of d k = Some v)"
  by (auto simp: dict_getitem_def attempt_Inr_iff split: option.splits)

lemma quora_add_Inr:
  assumes "quora_add (cs, seen) q = Inr t"
  shows "\<exists>k. hash_key q = Inr k \<and>
           ((map_of seen k = None \<and>
             t = (cs @ [\<lparr>docid = ''quora-q-'' @ str_nat (length seen), content = q,
                         metadata = []\<rparr>],
                  seen @ [(k, ''quora-q-'' @ str_nat (length seen))])) \<or>
            ((\<exists>v. map_of seen k = Some v) \<and> t = (cs, seen)))"
  using assms
  by (auto simp: quora_add_def attempt_Inr_iff update_absent Let_def split: if_splits)

lemma quora_add_inv:
  assumes "table_mirrors ''quora-q-'' seen cs" and "quora_add (cs, seen) q = Inr (cs', seen')"
  shows "table_mirrors ''quora-q-'' seen' cs' \<and>
         (\<forall>k v. map_of seen k = Some v \<longrightarrow> map_of seen' k = Some v) \<and>
         (\<exists>k v. hash_key q = Inr k \<and> map_of seen' k = Some v)"
proof -
  from quora_add_Inr [OF assms(2)] obtain k where k: "hash_key q = Inr k" and
    cases: "(map_of seen k = None \<and>
             (cs', seen') = (cs @ [\<lparr>docid = ''quora-q-'' @ str_nat (length seen), content = q,
                         metadata = []\<rparr>],
                  seen @ [(k, ''quora-q-'' @ str_nat (length seen))])) \<or>
            ((\<exists>v. map_of seen k = Some v) \<and> (cs', seen') = (cs, seen))"
    by blast
  from cases show ?thesis
  proof (elim disjE conjE exE)
    assume new: "map_of seen k = None"
      and eq: "(cs', seen') = (cs @ [\<lparr>docid = ''quora-q-'' @ str_nat (length seen), content = q,
                         metadata = []\<rparr>],
                  seen @ [(k, ''quora-q-'' @ str_nat (length seen))])"
    from table_mirrors_insert [OF assms(1) new k, of "[]"] eq
    have "table_mirrors ''quora-q-'' seen' cs'" by simp
    moreover have "map_of seen' k = Some (''quora-q-'' @ str_nat (length seen))"
      using eq new by (simp add: map_add_Some_iff)
    moreover have "\<forall>k v. map_of seen k = Some v \<longrightarrow> map_of seen' k = Some v"
      using eq by (simp add: map_add_Some_iff)
    ultimately show ?thesis using k by blast
  next
    fix v
    assume "map_of seen k = Some v" and "(cs', seen') = (cs, seen)"
    with assms(1) k show ?thesis by auto
  qed
qed

lemma quora_body_Inr:
  assumes "quora_body (qs, cs, seen) (i, item) = Inr t"
  shows "\<exists>q1 q2 d cs1 seen1 cs2 seen2.
           quora_question item 0 = Inr q1 \<and> quora_question item 1 = Inr q2 \<and>
           getitem item ''is_duplicate'' = Inr d \<and>
           quora_add (cs, seen) q1 = Inr (cs1, seen1) \<and>
           quora_add (cs1, seen1) q2 = Inr (cs2, seen2) \<and>
           (if truthy d then
              \<exists>v2. dict_getitem seen2 q2 = Inr v2 \<and>
                t = (qs @ [\<lparr>qid = ''quora-pair-'' @ str_nat i, query_text = q1,
                            relevantDocs = [v2], relevanceScores = [1],
                            tags = [''duplicate'', ''quora'']\<rparr>],
                     cs2, seen2)
            else t = (qs, cs2, seen2))"
  using assms
  by (auto simp: quora_body_def attempt_Inr_iff split: if_splits)

lemma quora_loop_rows:
  assumes "quora_loop ds = Inr (qs, cs)"
  shows "\<exists>seen. table_mirrors ''quora-q-'' seen cs \<and> distinct (map qid qs) \<and>
           (\<forall>q\<in>set qs. \<exists>j<length ds.
              qid q = ''quora-pair-'' @ str_nat j \<and> relevanceScores q = [1] \<and>
              (\<exists>d. getitem (ds ! j) ''is_duplicate'' = Inr d \<and> truthy d) \<and>
              (\<exists>c k v. quora_question (ds ! j) 1 = Inr c \<and> hash_key c = Inr k \<and>
                       map_of seen k = Some v \<and> relevantDocs q = [v])) \<and>
           (\<forall>j<length ds. \<forall>d. getitem (ds ! j) ''is_duplicate'' = Inr d \<and> truthy d \<longrightarrow>
              (\<exists>q\<in>set qs. qid q = ''quora-pair-'' @ str_nat j))"
proof -
  define row where "row = (\<lambda>(seen :: seen) (q :: query) j.
              qid q = ''quora-pair-'' @ str_nat j \<and> relevanceScores q = [1] \<and>
              (\<exists>d. getitem (ds ! j) ''is_duplicate'' = Inr d \<and> truthy d) \<and>
              (\<exists>c k v. quora_question (ds ! j) 1 = Inr c \<and> hash_key c = Inr k \<and>
                       map_of seen k = Some v \<and> relevantDocs q = [v]))"
  define dup where "dup = (\<lambda>j. \<exists>d. getitem (ds ! j) ''is_duplicate'' = Inr d \<and> truthy d)"
  define I where "I = (\<lambda>i (t :: query list \<times> document list \<times> seen).
       table_mirrors ''quora-q-'' (snd (snd t)) (fst (snd t)) \<and> distinct (map qid (fst t)) \<and>
       (\<forall>q\<in>set (fst t). \<exists>j<i. row (snd (snd t)) q j) \<and>
       (\<forall>j<i. dup j \<longrightarrow> (\<exists>q\<in>set (fst t). qid q = ''quora-pair-'' @ str_nat j)))"
  have row_qid: "qid q = ''quora-pair-'' @ str_nat j" if "row s q j" for s q j
    using that by (simp add: row_def)
  have row_grow: "row s' q j"
    if "row s q j" and "\<And>k v. map_of s k = Some v \<Longrightarrow> map_of s' k = Some v" for s s' q j
  proof -
    from that(1) obtain c k v where "quora_question (ds ! j) 1 = Inr c" "hash_key c = Inr k"
      "map_of s k = Some v" "relevantDocs q = [v]"
      unfolding row_def by blast
    moreover from this that(2) have "map_of s' k = Some v" by blast
    ultimately show ?thesis using that(1) unfolding row_def by blast
  qed
  from assms obtain seen where
    loop: "for_each quora_body (enumerate 0 ds) ([], [], []) = Inr (qs, cs, seen)"
    by (auto simp: quora_loop_def attempt_Inr_iff)
  have "I (0 + length ds) (qs, cs, seen)"
  proof (rule for_each_enumerate_inv [where I = I, OF loop])
    show "I 0 ([], [], [])" by (simp add: I_def table_mirrors_empty)
  next
    fix i t t'
    assume i: "i < 0 + length ds" and inv: "I i t"
      and step: "quora_body t (i, ds ! (i - 0)) = Inr t'"
    obtain qs0 cs0 seen0 where t: "t = (qs0, cs0, seen0)" by (cases t)
    from inv have tm: "table_mirrors ''quora-q-'' seen0 cs0" and dist: "distinct (map qid qs0)"
      and old: "\<forall>q\<in>set qs0. \<exists>j<i. row seen0 q j"
      and every: "\<forall>j<i. dup j \<longrightarrow> (\<exists>q\<in>set qs0. qid q = ''quora-pair-'' @ str_nat j)"
      by (simp_all add: I_def t)
    from step have step': "quora_body (qs0, cs0, seen0) (i, ds ! i) = Inr t'"
      by (simp add: t)
    from quora_body_Inr [OF step'] obtain q1 q2 d cs1 seen1 cs2 seen2 where
      q2: "quora_question (ds ! i) 1 = Inr q2" and
      d: "getitem (ds ! i) ''is_duplicate'' = Inr d" and
      a1: "quora_add (cs0, seen0) q1 = Inr (cs1, seen1)" and
      a2: "quora_add (cs1, seen1) q2 = Inr (cs2, seen2)" and
      res: "if truthy d then
              \<exists>v2. dict_getitem seen2 q2 = Inr v2 \<and>
                t' = (qs0 @ [\<lparr>qid = ''quora-pair-'' @ str_nat i, query_text = q1,
                            relevantDocs = [v2], relevanceScores = [1],
                            tags = [''duplicate'', ''quora'']\<rparr>],
                     cs2, seen2)
            else t' = (qs0, cs2, seen2)"
      by blast
    note s1 = quora_add_inv [OF tm a1]
    from s1 have tm1: "table_mirrors ''quora-q-'' seen1 cs1" by (rule conjunct1)
    note s2 = quora_add_inv [OF tm1 a2]
    from s2 have tm2: "table_mirrors ''quora-q-'' seen2 cs2" by (rule conjunct1)
    have grow: "map_of seen2 k = Some v" if "map_of seen0 k = Some v" for k v
    proof -
      from s1 that have "map_of seen1 k = Some v" by blast
      with s2 show ?thesis by blast
    qed
    have old2: "\<exists>j<Suc i. row seen2 q j" if "q \<in> set qs0" for q
    proof -
      from old that obtain j where j: "j < i" "row seen0 q j" by blast
      from row_grow [OF j(2) grow] have "row seen2 q j" .
      with j(1) show ?thesis using less_Suc_eq by blast
    qed
    have fresh: "''quora-pair-'' @ str_nat i \<notin> qid ` set qs0"
    proof
      assume "''quora-pair-'' @ str_nat i \<in> qid ` set qs0"
      then obtain q where q: "q \<in> set qs0" "qid q = ''quora-pair-'' @ str_nat i" by auto
      from old q(1) obtain j where j: "j < i" "row seen0 q j" by blast
      from row_qid [OF j(2)] q(2) have "j = i" by simp
      with j(1) show False by simp
    qed
    show "I (Suc i) t'"
    proof (cases "truthy d")
      case True
      with res obtain v2 where v2: "dict_getitem seen2 q2 = Inr v2"
        and t': "t' = (qs0 @ [\<lparr>qid = ''quora-pair-'' @ str_nat i, query_text = q1,
                            relevantDocs = [v2], relevanceScores = [1],
                            tags = [''duplicate'', ''quora'']\<rparr>],
                     cs2, seen2)"
        by auto
      define q where "q = \<lparr>qid = ''quora-pair-'' @ str_nat i, query_text = q1,
                            relevantDocs = [v2], relevanceScores = [1],
                            tags = [''duplicate'', ''quora'']\<rparr>"
      have new: "row seen2 q i"
        using v2 q2 d True by (auto simp: row_def q_def dict_getitem_Inr_iff)
      have qq: "qid q = ''quora-pair-'' @ str_nat i" by (simp add: q_def)
      have a: "\<forall>p\<in>set (qs0 @ [q]). \<exists>j<Suc i. row seen2 p j"
        using old2 new by auto
      have b: "\<exists>p\<in>set (qs0 @ [q]). qid p = ''quora-pair-'' @ str_nat j"
        if "j < Suc i" "dup j" for j
      proof (cases "j = i")
        case True
        then show ?thesis using qq by simp
      next
        case False
        with that have "j < i" by simp
        with every that(2) show ?thesis by auto
      qed
      have c: "distinct (map qid (qs0 @ [q]))" using dist fresh qq by simp
      from a b c tm2 show ?thesis unfolding t' q_def [symmetric] by (simp add: I_def)
    next
      case False
      with res have t': "t' = (qs0, cs2, seen2)" by simp
      have a: "\<forall>p\<in>set qs0. \<exists>j<Suc i. row seen2 p j"
        using old2 by blast
      have b: "\<exists>p\<in>set qs0. qid p = ''quora-pair-'' @ str_nat j"
        if "j < Suc i" "dup j" for j
      proof (cases "j = i")
        case True
        with that d False show ?thesis by (simp add: dup_def)
      next
        case False
        with that have "j < i" by simp
        with every that(2) show ?thesis by blast
      qed
      from a b dist tm2 show ?thesis unfolding t' by (simp add: I_def)
    qed
  qed
  then have "table_mirrors ''quora-q-'' seen cs" "distinct (map qid qs)"
    "\<forall>q\<in>set qs. \<exists>j<length ds. row seen q j"
    "\<forall>j<length ds. dup j \<longrightarrow> (\<exists>q\<in>set qs. qid q = ''quora-pair-'' @ str_nat j)"
    by (simp_all add: I_def)
  then show ?thesis unfolding row_def dup_def by blast
qed

subsection \<open>NFCorpus: what one iteration does\<close>

lemma nfcorpus_body_Inr:
  assumes "nfcorpus_body py (qs, cs, seen) (i, item) = Inr t"
  shows "\<exists>query. getitem item ''query'' = Inr query \<and>
           (if contains item ''corpus-id'' then
              \<exists>cid v. getitem item ''corpus-id'' = Inr cid \<and>
                v = ''nfcorpus-'' @ format_val py cid \<and>
                ((map_of seen v = None \<and>
                  t = (qs @ [\<lparr>qid = ''nfcorpus-q-'' @ str_nat i, query_text = query,
                              relevantDocs = [v], relevanceScores = [1],
                              tags = [''medical'', ''nfcorpus'']\<rparr>],
                       cs @ [\<lparr>docid = v,
                              content = get_default item ''corpus-text'' (VStr (''Document '' @ v)),
                              metadata = [(''medical'', VBool True)]\<rparr>],
                       seen @ [(v, True)])) \<or>
                 (map_of seen v \<noteq> None \<and>
                  t = (qs @ [\<lparr>qid = ''nfcorpus-q-'' @ str_nat i, query_text = query,
                              relevantDocs = [v], relevanceScores = [1],
                              tags = [''medical'', ''nfcorpus'']\<rparr>],
                       cs, seen)))
            else t = (qs, cs, seen))"
proof -
  from assms obtain query where q: "getitem item ''query'' = Inr query"
    by (auto simp: nfcorpus_body_def attempt_Inr_iff)
  show ?thesis
  proof (cases "contains item ''corpus-id''")
    case False
    with assms q show ?thesis
      by (auto simp: nfcorpus_body_def attempt_Inr_iff)
  next
    case True
    then obtain cid where cid: "getitem item ''corpus-id'' = Inr cid"
      by (auto simp: contains_def getitem_def)
    show ?thesis
    proof (cases "map_of seen (''nfcorpus-'' @ format_val py cid)")
      case None
      with assms q True cid show ?thesis
        by (auto simp: nfcorpus_body_def update_absent Let_def)
    next
      case (Some b)
      with assms q True cid show ?thesis
        by (auto simp: nfcorpus_body_def Let_def)
    qed
  qed
qed

lemma ball_snoc_Suc:
  assumes "\<forall>p\<in>set xs. \<exists>j<i. P p j" and "P x i"
  shows "\<forall>p\<in>set (xs @ [x]). \<exists>j<Suc i. P p j"
proof
  fix p
  assume "p \<in> set (xs @ [x])"
  then have "p \<in> set xs \<or> p = x" by auto
  then show "\<exists>j<Suc i. P p j"
  proof
    assume "p \<in> set xs"
    with assms(1) obtain j where "j < i" "P p j" by blast
    then show ?thesis using less_SucI by blast
  next
    assume "p = x"
    with assms(2) show ?thesis by blast
  qed
qed

lemma nfcorpus_loop_rows:
  assumes "nfcorpus_loop py ds = Inr (qs, cs)"
  shows "distinct (map docid cs) \<and> distinct (map qid qs) \<and>
         (\<forall>q\<in>set qs. \<exists>j<length ds.
            qid q = ''nfcorpus-q-'' @ str_nat j \<and> contains (ds ! j) ''corpus-id'' \<and>
            relevanceScores q = [1] \<and>
            (\<exists>v. relevantDocs q = [v] \<and> v \<in> docid ` set cs)) \<and>
         (\<forall>j<length ds. contains (ds ! j) ''corpus-id'' \<longrightarrow>
            (\<exists>q\<in>set qs. qid q = ''nfcorpus-q-'' @ str_nat j))"
proof -
  define row where "row = (\<lambda>(cs :: document list) (q :: query) j.
            qid q = ''nfcorpus-q-'' @ str_nat j \<and> contains (ds ! j) ''corpus-id'' \<and>
            relevanceScores q = [1] \<and>
            (\<exists>v. relevantDocs q = [v] \<and> v \<in> docid ` set cs))"
  define I where "I = (\<lambda>i (t :: query list \<times> document list \<times> (string \<times> bool) list).
       map fst (snd (snd t)) = map docid (fst (snd t)) \<and>
       distinct (map docid (fst (snd t))) \<and> distinct (map qid (fst t)) \<and>
       (\<forall>q\<in>set (fst t). \<exists>j<i. row (fst (snd t)) q j) \<and>
       (\<forall>j<i. contains (ds ! j) ''corpus-id'' \<longrightarrow>
          (\<exists>q\<in>set (fst t). qid q = ''nfcorpus-q-'' @ str_nat j)))"
  have row_qid: "qid q = ''nfcorpus-q-'' @ str_nat j" if "row c q j" for c q j
    using that by (simp add: row_def)
  have row_grow: "row (c @ [d]) q j" if "row c q j" for c d q j
    using that by (auto simp: row_def)
  from assms obtain seen where
    loop: "for_each (nfcorpus_body py) (enumerate 0 ds) ([], [], []) = Inr (qs, cs, seen)"
    by (auto simp: nfcorpus_loop_def attempt_Inr_iff)
  have "I (0 + length ds) (qs, cs, seen)"
  proof (rule for_each_enumerate_inv [where I = I, OF loop])
    show "I 0 ([], [], [])" by (simp add: I_def)
  next
    fix i t t'
    assume i: "i < 0 + length ds" and inv: "I i t"
      and step: "nfcorpus_body py t (i, ds ! (i - 0)) = Inr t'"
    obtain qs0 cs0 seen0 where t: "t = (qs0, cs0, seen0)" by (cases t)
    from inv have keys: "map fst seen0 = map docid cs0" and dd: "distinct (map docid cs0)"
      and dq: "distinct (map qid qs0)"
      and old: "\<forall>q\<in>set qs0. \<exists>j<i. row cs0 q j"
      and every: "\<forall>j<i. contains (ds ! j) ''corpus-id'' \<longrightarrow>
          (\<exists>q\<in>set qs0. qid q = ''nfcorpus-q-'' @ str_nat j)"
      by (simp_all add: I_def t)
    from step have step': "nfcorpus_body py (qs0, cs0, seen0) (i, ds ! i) = Inr t'"
      by (simp add: t)
    note body = nfcorpus_body_Inr [OF step']
    have fresh: "''nfcorpus-q-'' @ str_nat i \<notin> qid ` set qs0"
    proof
      assume "''nfcorpus-q-'' @ str_nat i \<in> qid ` set qs0"
      then obtain q where q: "q \<in> set qs0" "qid q = ''nfcorpus-q-'' @ str_nat i" by auto
      from old q(1) obtain j where j: "j < i" "row cs0 q j" by blast
      from row_qid [OF j(2)] q(2) have "j = i" by simp
      with j(1) show False by simp
    qed
    show "I (Suc i) t'"
    proof (cases "contains (ds ! i) ''corpus-id''")
      case False
      with body have t': "t' = (qs0, cs0, seen0)" by auto
      have a: "\<forall>p\<in>set qs0. \<exists>j<Suc i. row cs0 p j"
        using old less_Suc_eq by blast
      have b: "\<exists>p\<in>set qs0. qid p = ''nfcorpus-q-'' @ str_nat j"
        if "j < Suc i" "contains (ds ! j) ''corpus-id''" for j
      proof (cases "j = i")
        case True
        with that False show ?thesis by simp
      next
        case False
        with that have "j < i" by simp
        with every that(2) show ?thesis by blast
      qed
      from a b keys dd dq show ?thesis unfolding t' by (simp add: I_def)
    next
      case True
      with body obtain query v where
        cases: "(map_of seen0 v = None \<and>
                  t' = (qs0 @ [\<lparr>qid = ''nfcorpus-q-'' @ str_nat i, query_text = query,
                              relevantDocs = [v], relevanceScores = [1],
                              tags = [''medical'', ''nfcorpus'']\<rparr>],
                       cs0 @ [\<lparr>docid = v,
                              content = get_default (ds ! i) ''corpus-text'' (VStr (''Document '' @ v)),
                              metadata = [(''medical'', VBool True)]\<rparr>],
                       seen0 @ [(v, True)])) \<or>
                 (map_of seen0 v \<noteq> None \<and>
                  t' = (qs0 @ [\<lparr>qid = ''nfcorpus-q-'' @ str_nat i, query_text = query,
                              relevantDocs = [v], relevanceScores = [1],
                              tags = [''medical'', ''nfcorpus'']\<rparr>],
                       cs0, seen0))"
        by auto
      define q where "q = \<lparr>qid = ''nfcorpus-q-'' @ str_nat i, query_text = query,
                              relevantDocs = [v], relevanceScores = [1],
                              tags = [''medical'', ''nfcorpus'']\<rparr>"
      define d where "d = \<lparr>docid = v,
                              content = get_default (ds ! i) ''corpus-text'' (VStr (''Document '' @ v)),
                              metadata = [(''medical'', VBool True)]\<rparr>"
      have qq: "qid q = ''nfcorpus-q-'' @ str_nat i" by (simp add: q_def)
      have c: "distinct (map qid (qs0 @ [q]))" using dq fresh qq by simp
      have b: "\<exists>p\<in>set (qs0 @ [q]). qid p = ''nfcorpus-q-'' @ str_nat j"
        if "j < Suc i" "contains (ds ! j) ''corpus-id''" for j
      proof (cases "j = i")
        case True
        then show ?thesis using qq by simp
      next
        case False
        with that have "j < i" by simp
        with every that(2) show ?thesis by auto
      qed
      from cases [folded q_def d_def] show ?thesis
      proof (elim disjE conjE)
        assume new: "map_of seen0 v = None" and t': "t' = (qs0 @ [q], cs0 @ [d], seen0 @ [(v, True)])"
        from new have "v \<notin> fst ` set seen0" by (simp add: map_of_eq_None_iff)
        then have nv: "v \<notin> docid ` set cs0" using keys by (metis set_map)
        have "row (cs0 @ [d]) q i"
          using True by (simp add: row_def q_def d_def)
        moreover have "\<exists>j<i. row (cs0 @ [d]) p j" if "p \<in> set qs0" for p
          using old that row_grow by blast
        ultimately have a: "\<forall>p\<in>set (qs0 @ [q]). \<exists>j<Suc i. row (cs0 @ [d]) p j"
          by (intro ball_snoc_Suc) blast+
        have "distinct (map docid (cs0 @ [d]))" using dd nv by (simp add: d_def)
        moreover have "map fst (seen0 @ [(v, True)]) = map docid (cs0 @ [d])"
          using keys by (simp add: d_def)
        ultimately show ?thesis using a b c unfolding t' by (simp add: I_def)
      next
        assume hit: "map_of seen0 v \<noteq> None" and t': "t' = (qs0 @ [q], cs0, seen0)"
        from hit have "v \<in> fst ` set seen0" by (simp add: map_of_eq_None_iff)
        then have "v \<in> docid ` set cs0" using keys by (metis set_map)
        then have "row cs0 q i"
          using True by (simp add: row_def q_def)
        then have a: "\<forall>p\<in>set (qs0 @ [q]). \<exists>j<Suc i. row cs0 p j"
          using old by (intro ball_snoc_Suc)
        from a b c keys dd show ?thesis unfolding t' by (simp add: I_def)
      qed
    qed
  qed
  then have "distinct (map docid cs)" "distinct (map qid qs)"
    "\<forall>q\<in>set qs. \<exists>j<length ds. row cs q j"
    "\<forall>j<length ds. contains (ds ! j) ''corpus-id'' \<longrightarrow>
          (\<exists>q\<in>set qs. qid q = ''nfcorpus-q-'' @ str_nat j)"
    by (simp_all add: I_def)
  then show ?thesis unfolding row_def by blast
qed

subsection \<open>Every batch is well formed\<close>

lemma in_set_nthE:
  assumes "x \<in> set xs"
  obtains j where "j < length xs" and "x = xs ! j"
  using assms by (auto simp: in_set_conv_nth)

lemma distinct_by_position:
  assumes "\<forall>j<length xs. f (xs ! j) = prefix @ str_nat j"
  shows "distinct (map f xs)"
proof -
  have "map f xs = map (\<lambda>n. prefix @ str_nat n) [0..<length xs]"
    using assms by (intro nth_equalityI) simp_all
  then show ?thesis by (simp add: distinct_numbered)
qed

lemma sample_wf:
  "distinct (map docid sample_corpus) \<and> distinct (map qid sample_queries) \<and>
   (\<forall>q\<in>set sample_queries.
      relevantDocs q \<noteq> [] \<and> set (relevantDocs q) \<subseteq> docid ` set sample_corpus \<and>
      length (relevantDocs q) = length (relevanceScores q))"
  by (simp add: sample_queries_def sample_corpus_def)

lemma sts17_wf:
  assumes "sts17_loop py ds = Inr (qs, cs)"
  shows "distinct (map docid cs) \<and> distinct (map qid qs) \<and>
   (\<forall>q\<in>set qs.
      relevantDocs q \<noteq> [] \<and> set (relevantDocs q) \<subseteq> docid ` set cs \<and>
      length (relevantDocs q) = length (relevanceScores q))"
proof -
  note rows = sts17_loop_rows [OF assms]
  have d: "distinct (map docid cs)"
    using rows by (intro distinct_by_position [where prefix = "''sts17-doc-''"]) simp
  have q: "distinct (map qid qs)"
    using rows by (intro distinct_by_position [where prefix = "''sts17-en-en-''"]) simp
  have "relevantDocs q \<noteq> [] \<and> set (relevantDocs q) \<subseteq> docid ` set cs \<and>
      length (relevantDocs q) = length (relevanceScores q)" if "q \<in> set qs" for q
  proof -
    from that obtain j where j: "j < length qs" "q = qs ! j" by (rule in_set_nthE)
    with rows have "relevantDocs q = [docid (cs ! j)]" "cs ! j \<in> set cs"
      "\<exists>y. relevanceScores q = [y]" by auto
    then show ?thesis by auto
  qed
  with d q show ?thesis by blast
qed

lemma squad_wf:
  assumes "squad_loop ds = Inr (qs, cs)"
  shows "distinct (map docid cs) \<and> distinct (map qid qs) \<and>
   (\<forall>q\<in>set qs.
      relevantDocs q \<noteq> [] \<and> set (relevantDocs q) \<subseteq> docid ` set cs \<and>
      length (relevantDocs q) = length (relevanceScores q))"
proof -
  from squad_loop_rows [OF assms] obtain seen where
    tm: "table_mirrors ''squad-doc-'' seen cs" and len: "length qs = length ds" and
    rows: "\<forall>j<length ds.
              qid (qs ! j) = ''squad-q-'' @ str_nat j \<and> relevanceScores (qs ! j) = [1] \<and>
              (\<exists>c k v. getitem (ds ! j) ''context'' = Inr c \<and> hash_key c = Inr k \<and>
                       map_of seen k = Some v \<and> relevantDocs (qs ! j) = [v])"
    by blast
  have d: "distinct (map docid cs)"
    by (simp only: table_mirrors_docids [OF tm] distinct_numbered)
  have q: "distinct (map qid qs)"
    using rows len by (intro distinct_by_position [where prefix = "''squad-q-''"]) simp
  have "relevantDocs q \<noteq> [] \<and> set (relevantDocs q) \<subseteq> docid ` set cs \<and>
      length (relevantDocs q) = length (relevanceScores q)" if "q \<in> set qs" for q
  proof -
    from that obtain j where j: "j < length qs" "q = qs ! j" by (rule in_set_nthE)
    with rows len obtain k v where "map_of seen k = Some v" "relevantDocs q = [v]"
      "relevanceScores q = [1]" by auto
    moreover from table_mirrors_lookup [OF tm this(1)] have "v \<in> docid ` set cs" by auto
    ultimately show ?thesis by simp
  qed
  with d q show ?thesis by blast
qed

lemma quora_wf:
  assumes "quora_loop ds = Inr (qs, cs)"
  shows "distinct (map docid cs) \<and> distinct (map qid qs) \<and>
   (\<forall>q\<in>set qs.
      relevantDocs q \<noteq> [] \<and> set (relevantDocs q) \<subseteq> docid ` set cs \<and>
      length (relevantDocs q) = length (relevanceScores q))"
proof -
  from quora_loop_rows [OF assms] obtain seen where
    tm: "table_mirrors ''quora-q-'' seen cs" and q: "distinct (map qid qs)" and
    rows: "\<forall>q\<in>set qs. \<exists>j<length ds.
              qid q = ''quora-pair-'' @ str_nat j \<and> relevanceScores q = [1] \<and>
              (\<exists>d. getitem (ds ! j) ''is_duplicate'' = Inr d \<and> truthy d) \<and>
              (\<exists>c k v. quora_question (ds ! j) 1 = Inr c \<and> hash_key c = Inr k \<and>
                       map_of seen k = Some v \<and> relevantDocs q = [v])"
    by blast
  have d: "distinct (map docid cs)"
    by (simp only: table_mirrors_docids [OF tm] distinct_numbered)
  have "relevantDocs q \<noteq> [] \<and> set (relevantDocs q) \<subseteq> docid ` set cs \<and>
      length (relevantDocs q) = length (relevanceScores q)" if "q \<in> set qs" for q
  proof -
    from rows that obtain k v where "map_of seen k = Some v" "relevantDocs q = [v]"
      "relevanceScores q = [1]" by blast
    moreover from table_mirrors_lookup [OF tm this(1)] have "v \<in> docid ` set cs" by auto
    ultimately show ?thesis by simp
  qed
  with d q show ?thesis by blast
qed

lemma nfcorpus_wf:
  assumes "nfcorpus_loop py ds = Inr (qs, cs)"
  shows "distinct (map docid cs) \<and> distinct (map qid qs) \<and>
   (\<forall>q\<in>set qs.
      relevantDocs q \<noteq> [] \<and> set (relevantDocs q) \<subseteq> docid ` set cs \<and>
      length (relevantDocs q) = length (relevanceScores q))"
proof -
  note rows = nfcorpus_loop_rows [OF assms]
  have "relevantDocs q \<noteq> [] \<and> set (relevantDocs q) \<subseteq> docid ` set cs \<and>
      length (relevantDocs q) = length (relevanceScores q)" if "q \<in> set qs" for q
  proof -
    from rows that obtain v where "relevantDocs q = [v]" "v \<in> docid ` set cs"
      "relevanceScores q = [1]" by blast
    then show ?thesis by simp
  qed
  with rows show ?thesis by blast
qed

lemma normalize_wf:
  assumes "normalize a py ds = Inr (qs, cs)"
  shows "distinct (map docid cs) \<and> distinct (map qid qs) \<and>
   (\<forall>q\<in>set qs.
      relevantDocs q \<noteq> [] \<and> set (relevantDocs q) \<subseteq> docid ` set cs \<and>
      length (relevantDocs q) = length (relevanceScores q))"
proof (cases a)
  case Sample
  with assms sample_wf show ?thesis by simp
next
  case Sts17
  with assms show ?thesis by (simp add: sts17_wf)
next
  case Squad
  with assms show ?thesis by (simp add: squad_wf)
next
  case Quora
  with assms show ?thesis by (simp add: quora_wf)
next
  case Nfcorpus
  with assms show ?thesis by (simp add: nfcorpus_wf)
qed

subsection \<open>The loops on the example rows\<close>

lemma str_nat_unary:
  "str_nat (Suc (Suc 0)) = ''2''" "str_nat (Suc (Suc (Suc 0))) = ''3''"
  "str_nat (Suc (Suc (Suc (Suc 0)))) = ''4''"
  by (simp_all add: str_nat.simps str_digit_def)

lemma example_sts17_batch:
  "sts17_loop example_python example_sts17 =
     Inr ([\<lparr>qid = ''sts17-en-en-0'', query_text = VStr ''a'',
             relevantDocs = [''sts17-doc-0''], relevanceScores = [1],
             tags = [''sts'', ''en-en'']\<rparr>,
           \<lparr>qid = ''sts17-en-en-1'', query_text = VStr ''b'',
             relevantDocs = [''sts17-doc-1''], relevanceScores = [0],
             tags = [''sts'', ''en-en'']\<rparr>],
          [\<lparr>docid = ''sts17-doc-0'', content = VStr ''same'',
             metadata = [(''score'', VFloat 5)]\<rparr>,
           \<lparr>docid = ''sts17-doc-1'', content = VStr ''same'',
             metadata = [(''score'', VInt 0)]\<rparr>])"
  by (simp add: sts17_loop_def sts17_body_def getitem_def str_nat_small str_nat_unary float_of_int_def
      example_python_def example_sts17_def)

lemma example_squad_batch:
  "squad_loop example_squad =
     Inr ([\<lparr>qid = ''squad-q-0'', query_text = VStr ''q0'',
             relevantDocs = [''squad-doc-0''], relevanceScores = [1],
             tags = [''qa'', ''squad'']\<rparr>,
           \<lparr>qid = ''squad-q-1'', query_text = VStr ''q1'',
             relevantDocs = [''squad-doc-0''], relevanceScores = [1],
             tags = [''qa'', ''squad'']\<rparr>,
           \<lparr>qid = ''squad-q-2'', query_text = VStr ''q2'',
             relevantDocs = [''squad-doc-1''], relevanceScores = [1],
             tags = [''qa'', ''squad'']\<rparr>],
          [\<lparr>docid = ''squad-doc-0'', content = VStr ''same text'',
             metadata = [(''title'', VStr ''T'')]\<rparr>,
           \<lparr>docid = ''squad-doc-1'', content = VStr ''other'',
             metadata = [(''title'', VStr ''U'')]\<rparr>])"
  by (simp add: squad_loop_def squad_body_def getitem_def str_nat_small str_nat_unary example_squad_def Let_def)

lemma example_quora_batch:
  "quora_loop example_quora =
     Inr ([\<lparr>qid = ''quora-pair-0'', query_text = VStr ''a'',
             relevantDocs = [''quora-q-1''], relevanceScores = [1],
             tags = [''duplicate'', ''quora'']\<rparr>,
           \<lparr>qid = ''quora-pair-2'', query_text = VStr ''e'',
             relevantDocs = [''quora-q-1''], relevanceScores = [1],
             tags = [''duplicate'', ''quora'']\<rparr>],
          [\<lparr>docid = ''quora-q-0'', content = VStr ''a'', metadata = []\<rparr>,
           \<lparr>docid = ''quora-q-1'', content = VStr ''b'', metadata = []\<rparr>,
           \<lparr>docid = ''quora-q-2'', content = VStr ''c'', metadata = []\<rparr>,
           \<lparr>docid = ''quora-q-3'', content = VStr ''d'', metadata = []\<rparr>,
           \<lparr>docid = ''quora-q-4'', content = VStr ''e'', metadata = []\<rparr>])"
  by (simp add: quora_loop_def quora_body_def quora_add_def quora_question_def dict_getitem_def
      getitem_def str_nat_small str_nat_unary example_quora_def Let_def)

lemma example_nfcorpus_batch:
  "nfcorpus_loop example_python example_nfcorpus =
     Inr ([\<lparr>qid = ''nfcorpus-q-1'', query_text = VStr ''q1'',
             relevantDocs = [''nfcorpus-MED-1''], relevanceScores = [1],
             tags = [''medical'', ''nfcorpus'']\<rparr>,
           \<lparr>qid = ''nfcorpus-q-2'', query_text = VStr ''q2'',
             relevantDocs = [''nfcorpus-MED-1''], relevanceScores = [1],
             tags = [''medical'', ''nfcorpus'']\<rparr>],
          [\<lparr>docid = ''nfcorpus-MED-1'', content = VStr ''Document nfcorpus-MED-1'',
             metadata = [(''medical'', VBool True)]\<rparr>])"
  by (simp add: nfcorpus_loop_def nfcorpus_body_def getitem_def contains_def get_default_def
      str_nat_small str_nat_unary example_nfcorpus_def example_python_def Let_def)

lemma example_normalize:
  "normalize Sample example_python [] = Inr (sample_queries, sample_corpus)"
  "normalize Sts17 example_python example_sts17 = sts17_loop example_python example_sts17"
  "normalize Squad example_python example_squad = squad_loop example_squad"
  "normalize Quora example_python example_quora = quora_loop example_quora"
  "normalize Nfcorpus example_python example_nfcorpus =
     nfcorpus_loop example_python example_nfcorpus"
  by simp_all

subsection \<open>Deduplication, step by step and over the whole loop\<close>

lemma squad_body_dedup:
  assumes "squad_body (qsa, csa, seena) (i, item) = Inr (qsb, csb, seenb)"
    and "getitem item ''context'' = Inr c" and "hash_key c = Inr k"
  shows "case map_of seena k of
         None \<Rightarrow> (\<exists>m. csb = csa @ [\<lparr>docid = ''squad-doc-'' @ str_nat (length seena),
                                   content = c, metadata = m\<rparr>]) \<and>
                 seenb = seena @ [(k, ''squad-doc-'' @ str_nat (length seena))] \<and>
                 relevantDocs (last qsb) = [''squad-doc-'' @ str_nat (length seena)]
       | Some v \<Rightarrow> csb = csa \<and> seenb = seena \<and> relevantDocs (last qsb) = [v]"
proof -
  from squad_body_Inr [OF assms(1)] obtain c0 k0 question v where
    h: "getitem item ''context'' = Inr c0" "hash_key c0 = Inr k0" and
    cases: "(map_of seena k0 = None \<and> v = ''squad-doc-'' @ str_nat (length seena) \<and>
             (\<exists>title.
                (qsb, csb, seenb) = (qsa @ [\<lparr>qid = ''squad-q-'' @ str_nat i, query_text = question,
                            relevantDocs = [v], relevanceScores = [1],
                            tags = [''qa'', ''squad'']\<rparr>],
                     csa @ [\<lparr>docid = v, content = c0, metadata = [(''title'', title)]\<rparr>],
                     seena @ [(k0, v)]))) \<or>
            (map_of seena k0 = Some v \<and>
             (qsb, csb, seenb) = (qsa @ [\<lparr>qid = ''squad-q-'' @ str_nat i, query_text = question,
                         relevantDocs = [v], relevanceScores = [1],
                         tags = [''qa'', ''squad'']\<rparr>],
                  csa, seena))"
    by blast
  from h assms(2,3) have eq: "c0 = c" "k0 = k" by simp_all
  from cases show ?thesis
  proof (elim disjE conjE exE)
    fix title
    assume "map_of seena k0 = None" "v = ''squad-doc-'' @ str_nat (length seena)"
      "(qsb, csb, seenb) = (qsa @ [\<lparr>qid = ''squad-q-'' @ str_nat i, query_text = question,
                            relevantDocs = [v], relevanceScores = [1],
                            tags = [''qa'', ''squad'']\<rparr>],
                     csa @ [\<lparr>docid = v, content = c0, metadata = [(''title'', title)]\<rparr>],
                     seena @ [(k0, v)])"
    then show ?thesis using eq by simp
  next
    assume "map_of seena k0 = Some v"
      "(qsb, csb, seenb) = (qsa @ [\<lparr>qid = ''squad-q-'' @ str_nat i, query_text = question,
                         relevantDocs = [v], relevanceScores = [1],
                         tags = [''qa'', ''squad'']\<rparr>],
                  csa, seena)"
    then show ?thesis using eq by simp
  qed
qed

lemma quora_add_dedup:
  assumes "quora_add (csc, seenc) t = Inr (csd, seend)" and "hash_key t = Inr k"
  shows "case map_of seenc k of
         None \<Rightarrow> csd = csc @ [\<lparr>docid = ''quora-q-'' @ str_nat (length seenc),
                              content = t, metadata = []\<rparr>] \<and>
                 seend = seenc @ [(k, ''quora-q-'' @ str_nat (length seenc))]
       | Some v \<Rightarrow> csd = csc \<and> seend = seenc"
proof -
  from quora_add_Inr [OF assms(1)] obtain k0 where h: "hash_key t = Inr k0" and
    cases: "(map_of seenc k0 = None \<and>
             (csd, seend) = (csc @ [\<lparr>docid = ''quora-q-'' @ str_nat (length seenc), content = t,
                         metadata = []\<rparr>],
                  seenc @ [(k0, ''quora-q-'' @ str_nat (length seenc))])) \<or>
            ((\<exists>v. map_of seenc k0 = Some v) \<and> (csd, seend) = (csc, seenc))"
    by blast
  from h assms(2) have eq: "k0 = k" by simp
  from cases show ?thesis
  proof (elim disjE conjE exE)
    assume "map_of seenc k0 = None"
      "(csd, seend) = (csc @ [\<lparr>docid = ''quora-q-'' @ str_nat (length seenc), content = t,
                         metadata = []\<rparr>],
                  seenc @ [(k0, ''quora-q-'' @ str_nat (length seenc))])"
    then show ?thesis using eq by simp
  next
    fix v
    assume "map_of seenc k0 = Some v" "(csd, seend) = (csc, seenc)"
    then show ?thesis using eq by simp
  qed
qed

lemma squad_shared_document:
  assumes loop: "squad_loop ds = Inr (qs, cs)" and x: "x < length ds" and y: "y < length ds"
    and cx: "getitem (ds ! x) ''context'' = Inr cx" and cy: "getitem (ds ! y) ''context'' = Inr cy"
    and same: "hash_key cx = hash_key cy"
  shows "\<exists>d. filter (\<lambda>d. hash_key (content d) = hash_key cx) cs = [d] \<and>
           relevantDocs (qs ! x) = [docid d] \<and> relevantDocs (qs ! y) = [docid d]"
proof -
  from squad_loop_rows [OF loop] obtain seen where
    tm: "table_mirrors ''squad-doc-'' seen cs" and
    rows: "\<forall>j<length ds.
              qid (qs ! j) = ''squad-q-'' @ str_nat j \<and> relevanceScores (qs ! j) = [1] \<and>
              (\<exists>c k v. getitem (ds ! j) ''context'' = Inr c \<and> hash_key c = Inr k \<and>
                       map_of seen k = Some v \<and> relevantDocs (qs ! j) = [v])"
    by blast
  from rows x obtain c1 k v where "getitem (ds ! x) ''context'' = Inr c1"
    and kx: "hash_key c1 = Inr k" "map_of seen k = Some v" "relevantDocs (qs ! x) = [v]"
    by blast
  with cx have c1: "c1 = cx" by simp
  from rows y obtain c2 k2 v2 where "getitem (ds ! y) ''context'' = Inr c2"
    and ky: "hash_key c2 = Inr k2" "map_of seen k2 = Some v2" "relevantDocs (qs ! y) = [v2]"
    by blast
  with cy have c2: "c2 = cy" by simp
  from kx(1) ky(1) same c1 c2 have k2: "k2 = k" by simp
  with kx(2) ky(2) have v2: "v2 = v" by simp
  from table_mirrors_unique [OF tm kx(2)] obtain d where
    d: "filter (\<lambda>d. hash_key (content d) = Inr k) cs = [d]" "docid d = v" by blast
  from d kx ky c1 v2 show ?thesis by simp
qed

lemma quora_shared_document:
  assumes loop: "quora_loop dq = Inr (qq, cq)" and x: "x < length dq" and y: "y < length dq"
    and ex: "getitem (dq ! x) ''is_duplicate'' = Inr ex" "truthy ex"
    and ey: "getitem (dq ! y) ''is_duplicate'' = Inr ey" "truthy ey"
    and tx: "quora_question (dq ! x) 1 = Inr tx" and ty: "quora_question (dq ! y) 1 = Inr ty"
    and same: "hash_key tx = hash_key ty"
  shows "\<exists>d qx qy. filter (\<lambda>d. hash_key (content d) = hash_key tx) cq = [d] \<and>
           qx \<in> set qq \<and> qid qx = ''quora-pair-'' @ str_nat x \<and> relevantDocs qx = [docid d] \<and>
           qy \<in> set qq \<and> qid qy = ''quora-pair-'' @ str_nat y \<and> relevantDocs qy = [docid d]"
proof -
  from quora_loop_rows [OF loop] obtain seen where
    tm: "table_mirrors ''quora-q-'' seen cq" and
    rows: "\<forall>q\<in>set qq. \<exists>j<length dq.
              qid q = ''quora-pair-'' @ str_nat j \<and> relevanceScores q = [1] \<and>
              (\<exists>d. getitem (dq ! j) ''is_duplicate'' = Inr d \<and> truthy d) \<and>
              (\<exists>c k v. quora_question (dq ! j) 1 = Inr c \<and> hash_key c = Inr k \<and>
                       map_of seen k = Some v \<and> relevantDocs q = [v])" and
    every: "\<forall>j<length dq. \<forall>d. getitem (dq ! j) ''is_duplicate'' = Inr d \<and> truthy d \<longrightarrow>
              (\<exists>q\<in>set qq. qid q = ''quora-pair-'' @ str_nat j)"
    by blast
  have found: "\<exists>q k v. q \<in> set qq \<and> qid q = ''quora-pair-'' @ str_nat j \<and>
        hash_key t = Inr k \<and> map_of seen k = Some v \<and> relevantDocs q = [v]"
    if j: "j < length dq" and b: "getitem (dq ! j) ''is_duplicate'' = Inr b" "truthy b"
      and t: "quora_question (dq ! j) 1 = Inr t" for j b t
  proof -
    from every j b obtain q where q: "q \<in> set qq" "qid q = ''quora-pair-'' @ str_nat j"
      by blast
    from rows q(1) obtain j2 where j2: "qid q = ''quora-pair-'' @ str_nat j2" and
      r: "\<exists>c k v. quora_question (dq ! j2) 1 = Inr c \<and> hash_key c = Inr k \<and>
                       map_of seen k = Some v \<and> relevantDocs q = [v]"
      by blast
    from j2 q(2) have "j2 = j" by simp
    with r t obtain k v where "hash_key t = Inr k" "map_of seen k = Some v"
      "relevantDocs q = [v]" by auto
    with q show ?thesis by blast
  qed
  from found [OF x ex tx] obtain qx k v where qx: "qx \<in> set qq"
    "qid qx = ''quora-pair-'' @ str_nat x" "hash_key tx = Inr k" "map_of seen k = Some v"
    "relevantDocs qx = [v]" by blast
  from found [OF y ey ty] obtain qy k2 v2 where qy: "qy \<in> set qq"
    "qid qy = ''quora-pair-'' @ str_nat y" "hash_key ty = Inr k2" "map_of seen k2 = Some v2"
    "relevantDocs qy = [v2]" by blast
  from qx(3) qy(3) same have "k2 = k" by simp
  with qx(4) qy(4) have v2: "v2 = v" by simp
  from table_mirrors_unique [OF tm qx(4)] obtain d where
    d: "filter (\<lambda>d. hash_key (content d) = Inr k) cq = [d]" "docid d = v" by blast
  have "filter (\<lambda>d. hash_key (content d) = hash_key tx) cq = [d]" using d(1) qx(3) by simp
  moreover have "relevantDocs qx = [docid d]" using d(2) qx(5) by simp
  moreover have "relevantDocs qy = [docid d]" using d(2) qy(5) v2 by simp
  ultimately show ?thesis using qx(1,2) qy(1,2) by blast
qed

subsection \<open>Results of the adapters\<close>

lemma write_batch_result:
  "fst (write_batch w dir qp cp b fs) =
     (if blocked w dir then Inl (OSError dir)
      else if blocked w qp then Inl (OSError qp)
      else if blocked w cp then Inl (OSError cp)
      else Inr True)"
  by (cases b) (simp add: write_batch_def then_io_def ensure_dir_def save_jsonl_def)

text \<open>
  The result of a \<^verbatim>\<open>download_\<close> function: true exactly when the dataset was loaded, the
  loop returned and the three paths could be written.
\<close>

lemma download_result:
  "fst (except_false
     (then_io (load_dataset w args fs) (\<lambda>dataset fs.
      then_io (loop dataset, fs) (\<lambda>b fs. write_batch w dir qp cp b fs)))) =
   (case hub w args of
      Inl e \<Rightarrow> False
    | Inr dataset \<Rightarrow>
        (case loop dataset of
           Inl e \<Rightarrow> False
         | Inr b \<Rightarrow> \<not> blocked w dir \<and> \<not> blocked w qp \<and> \<not> blocked w cp))"
proof (cases "hub w args")
  case (Inl e)
  then show ?thesis by (simp add: except_false_def then_io_def load_dataset_def)
next
  case ds: (Inr dataset)
  show ?thesis
  proof (cases "loop dataset")
    case (Inl e)
    with ds show ?thesis by (simp add: except_false_def then_io_def load_dataset_def)
  next
    case (Inr b)
    obtain r fs' where wb: "write_batch w dir qp cp b fs = (r, fs')" by force
    from write_batch_result [of w dir qp cp b fs] wb
    have "r = (if blocked w dir then Inl (OSError dir)
      else if blocked w qp then Inl (OSError qp)
      else if blocked w cp then Inl (OSError cp)
      else Inr True)" by simp
    with ds Inr wb show ?thesis
      by (simp add: except_false_def then_io_def load_dataset_def)
  qed
qed

text \<open>Whether an adapter succeeds does not depend on the files that exist already.\<close>

lemma run_result_independent: "fst (run a py w fs) = fst (run a py w fs')"
proof (cases a)
  case Sample
  then show ?thesis by (simp add: create_sample_dataset_def write_batch_result)
next
  case Sts17
  then show ?thesis by (simp add: download_mteb_sts17_def download_result)
next
  case Squad
  then show ?thesis by (simp add: download_squad_sample_def download_result)
next
  case Quora
  then show ?thesis by (simp add: download_quora_sample_def download_result)
next
  case Nfcorpus
  then show ?thesis by (simp add: download_nfcorpus_sample_def download_result)
qed

lemma all_adapters:
  "(\<forall>a. P a) \<longleftrightarrow> P Sample \<and> P Sts17 \<and> P Squad \<and> P Quora \<and> P Nfcorpus"
proof
  assume "\<forall>a. P a"
  then show "P Sample \<and> P Sts17 \<and> P Squad \<and> P Quora \<and> P Nfcorpus" by blast
next
  assume h: "P Sample \<and> P Sts17 \<and> P Squad \<and> P Quora \<and> P Nfcorpus"
  show "\<forall>a. P a"
  proof
    fix a
    from h show "P a" by (cases a) simp_all
  qed
qed

text \<open>The summary of \<^verbatim>\<open>main\<close>: five results, all of them counted.\<close>

lemma count_results:
  "(length (filter (\<lambda>s. s) (map snd
      (AList.update ''nfcorpus'' r5 (AList.update ''quora'' r4 (AList.update ''squad'' r3
        (AList.update ''sts17'' r2 (AList.update ''sample'' r1 []))))))) =
    length (AList.update ''nfcorpus'' r5 (AList.update ''quora'' r4 (AList.update ''squad'' r3
        (AList.update ''sts17'' r2 (AList.update ''sample'' r1 [])))))) \<longleftrightarrow>
   r1 \<and> r2 \<and> r3 \<and> r4 \<and> r5"
  by (cases r1; cases r2; cases r3; cases r4; cases r5) simp_all

lemma main_result:
  "fst (main py w fs) =
     (case fst (create_sample_dataset w fs) of
        Inl e \<Rightarrow> Inl e
      | Inr r \<Rightarrow>
          Inr (r \<and> fst (download_mteb_sts17 py w fs) \<and> fst (download_squad_sample w fs) \<and>
               fst (download_quora_sample w fs) \<and> fst (download_nfcorpus_sample py w fs)))"
proof (cases "create_sample_dataset w fs")
  case (Pair r fs1)
  show ?thesis
  proof (cases r)
    case (Inl e)
    with Pair show ?thesis by (simp add: main_def then_io_def)
  next
    case (Inr b)
    obtain r2 fs2 where s2: "download_mteb_sts17 py w fs1 = (r2, fs2)" by force
    obtain r3 fs3 where s3: "download_squad_sample w fs2 = (r3, fs3)" by force
    obtain r4 fs4 where s4: "download_quora_sample w fs3 = (r4, fs4)" by force
    obtain r5 fs5 where s5: "download_nfcorpus_sample py w fs4 = (r5, fs5)" by force
    have i2: "fst (download_mteb_sts17 py w fs) = r2"
      using run_result_independent [of Sts17 py w fs fs1] s2 by simp
    have i3: "fst (download_squad_sample w fs) = r3"
      using run_result_independent [of Squad py w fs fs2] s3 by simp
    have i4: "fst (download_quora_sample w fs) = r4"
      using run_result_independent [of Quora py w fs fs3] s4 by simp
    have i5: "fst (download_nfcorpus_sample py w fs) = r5"
      using run_result_independent [of Nfcorpus py w fs fs4] s5 by simp
    have "fst (main py w fs) = Inr (b \<and> r2 \<and> r3 \<and> r4 \<and> r5)"
      using Pair Inr s2 s3 s4 s5
      by (simp only: main_def then_io_def Let_def prod.case sum.case fst_conv count_results)
    with Pair Inr i2 i3 i4 i5 show ?thesis by simp
  qed
qed

lemma example_world_results:
  "fst (run a example_python example_world fs) = Inr True"
proof (cases a)
  case Sample
  then show ?thesis
    by (simp add: create_sample_dataset_def write_batch_result example_world_def)
next
  case Sts17
  then show ?thesis
    by (simp add: download_mteb_sts17_def download_result example_world_def example_hub_def
        example_sts17_batch)
next
  case Squad
  then show ?thesis
    by (simp add: download_squad_sample_def download_result example_world_def example_hub_def
        example_squad_batch)
next
  case Quora
  then show ?thesis
    by (simp add: download_quora_sample_def download_result example_world_def example_hub_def
        example_quora_batch)
next
  case Nfcorpus
  then show ?thesis
    by (simp add: download_nfcorpus_sample_def download_result example_world_def example_hub_def
        example_nfcorpus_batch)
qed

subsection \<open>Failed and completed runs of a download function\<close>

lemma getitem_absent: "\<not> contains item k \<Longrightarrow> getitem item k = Inl (KeyError (VStr k))"
  by (simp add: contains_def getitem_def)

lemma loop_raises:
  assumes "item \<in> set ds" and "\<And>s i t. body s (i, item) \<noteq> Inr t"
  shows "\<exists>e. for_each body (enumerate n ds) s = Inl e"
proof -
  from assms(1) obtain j where "j < length ds" "ds ! j = item"
    by (auto simp: in_set_conv_nth)
  then have "(n + j, item) \<in> set (enumerate n ds)"
    by (auto simp: in_set_enumerate_eq)
  moreover have "\<exists>e. body u (n + j, item) = Inl e" for u
    using assms(2) [of u "n + j"] by (cases "body u (n + j, item)") auto
  ultimately show ?thesis by (rule for_each_raises)
qed

lemma download_aborted:
  assumes "hub w args = Inr dataset" and "loop dataset = Inl e"
  shows "except_false
     (then_io (load_dataset w args fs) (\<lambda>dataset fs.
      then_io (loop dataset, fs) (\<lambda>b fs. write_batch w dir qp cp b fs))) = (False, fs)"
  using assms by (simp add: except_false_def then_io_def load_dataset_def)

lemma download_written:
  assumes "hub w args = Inr dataset" and "loop dataset = Inr (qs, cs)"
    and "\<not> blocked w dir" and "\<not> blocked w qp" and "\<not> blocked w cp"
  shows "except_false
     (then_io (load_dataset w args fs) (\<lambda>dataset fs.
      then_io (loop dataset, fs) (\<lambda>b fs. write_batch w dir qp cp b fs))) =
     (True, fs(qp \<mapsto> map QueryLine qs, cp \<mapsto> map DocLine cs))"
  using assms
  by (simp add: except_false_def then_io_def load_dataset_def write_batch_def ensure_dir_def
      save_jsonl_def)

lemma sts17_loop_raises:
  assumes "item \<in> set ds"
    and "\<not> contains item ''sentence1'' \<or> \<not> contains item ''score'' \<or>
         \<not> contains item ''sentence2''"
  shows "\<exists>e. sts17_loop py ds = Inl e"
  unfolding sts17_loop_def using assms(1)
proof (rule loop_raises)
  fix s :: batch and i t
  obtain qs cs where s: "s = (qs, cs)" by (cases s)
  show "sts17_body py s (i, item) \<noteq> Inr t"
  proof
    assume "sts17_body py s (i, item) = Inr t"
    from sts17_body_Inr [OF this [unfolded s]] assms(2) show False
      by (auto dest: getitem_absent)
  qed
qed

lemma squad_loop_raises:
  assumes "item \<in> set ds"
    and "\<not> contains item ''context'' \<or> \<not> contains item ''question''"
  shows "\<exists>e. squad_loop ds = Inl e"
proof -
  have "\<exists>e. for_each squad_body (enumerate 0 ds) ([], [], []) = Inl e"
    using assms(1)
  proof (rule loop_raises)
    fix s :: "query list \<times> document list \<times> seen" and i t
    obtain qs cs seen where s: "s = (qs, cs, seen)" by (cases s)
    show "squad_body s (i, item) \<noteq> Inr t"
    proof
      assume "squad_body s (i, item) = Inr t"
      from squad_body_Inr [OF this [unfolded s]] assms(2) show False
        by (auto dest: getitem_absent)
    qed
  qed
  then show ?thesis by (auto simp: squad_loop_def)
qed

lemma quora_loop_raises:
  assumes "item \<in> set ds"
    and "\<not> contains item ''questions'' \<or> \<not> contains item ''is_duplicate''"
  shows "\<exists>e. quora_loop ds = Inl e"
proof -
  have "\<exists>e. for_each quora_body (enumerate 0 ds) ([], [], []) = Inl e"
    using assms(1)
  proof (rule loop_raises)
    fix s :: "query list \<times> document list \<times> seen" and i t
    obtain qs cs seen where s: "s = (qs, cs, seen)" by (cases s)
    show "quora_body s (i, item) \<noteq> Inr t"
    proof
      assume "quora_body s (i, item) = Inr t"
      from quora_body_Inr [OF this [unfolded s]] obtain q d where
        "quora_question item 0 = Inr q" "getitem item ''is_duplicate'' = Inr d" by blast
      with assms(2) show False
        by (auto simp: quora_question_def attempt_Inr_iff dest: getitem_absent)
    qed
  qed
  then show ?thesis by (auto simp: quora_loop_def)
qed

lemma nfcorpus_loop_raises:
  assumes "item \<in> set ds" and "\<not> contains item ''query''"
  shows "\<exists>e. nfcorpus_loop py ds = Inl e"
proof -
  have "\<exists>e. for_each (nfcorpus_body py) (enumerate 0 ds) ([], [], []) = Inl e"
    using assms(1)
  proof (rule loop_raises)
    fix s :: "query list \<times> document list \<times> (string \<times> bool) list" and i t
    obtain qs cs seen where s: "s = (qs, cs, seen)" by (cases s)
    show "nfcorpus_body py s (i, item) \<noteq> Inr t"
    proof
      assume "nfcorpus_body py s (i, item) = Inr t"
      from nfcorpus_body_Inr [OF this [unfolded s]] assms(2) show False
        by (auto dest: getitem_absent)
    qed
  qed
  then show ?thesis by (auto simp: nfcorpus_loop_def)
qed

subsection \<open>Fields that are read conditionally or with a default\<close>

lemma nfcorpus_skips_row:
  assumes "getitem item ''query'' = Inr q" and "\<not> contains item ''corpus-id''"
  shows "nfcorpus_body py (qs, cs, seen) (i, item) = Inr (qs, cs, seen)"
  using assms by (simp add: nfcorpus_body_def)

lemma nfcorpus_default_content:
  assumes "getitem item ''query'' = Inr q" and "getitem item ''corpus-id'' = Inr cid"
    and "\<not> contains item ''corpus-text''"
    and "map_of seen (''nfcorpus-'' @ format_val py cid) = None"
  shows "\<exists>qs'. nfcorpus_body py (qs, cs, seen) (i, item) =
           Inr (qs',
                cs @ [\<lparr>docid = ''nfcorpus-'' @ format_val py cid,
                       content = VStr (''Document '' @ ''nfcorpus-'' @ format_val py cid),
                       metadata = [(''medical'', VBool True)]\<rparr>],
                seen @ [(''nfcorpus-'' @ format_val py cid, True)])"
proof -
  from assms(2) have "contains item ''corpus-id''"
    by (auto simp: contains_def getitem_def split: option.splits)
  moreover from assms(3) have "get_default item ''corpus-text'' d = d" for d
    by (simp add: contains_def get_default_def)
  ultimately show ?thesis
    using assms(1,2,4) by (simp add: nfcorpus_body_def update_absent Let_def)
qed

lemma squad_title_required:
  assumes "getitem item ''context'' = Inr c" and "hash_key c = Inr k"
    and "map_of seen k = None" and "\<not> contains item ''title''"
  shows "squad_body (qs, cs, seen) (i, item) = Inl (KeyError (VStr ''title''))"
  using assms by (simp add: squad_body_def getitem_absent Let_def)

lemma nfcorpus_given_content:
  assumes "getitem item ''query'' = Inr q" and "getitem item ''corpus-id'' = Inr cid"
    and "getitem item ''corpus-text'' = Inr t"
    and "map_of seen (''nfcorpus-'' @ format_val py cid) = None"
  shows "\<exists>qs'. nfcorpus_body py (qs, cs, seen) (i, item) =
           Inr (qs',
                cs @ [\<lparr>docid = ''nfcorpus-'' @ format_val py cid, content = t,
                       metadata = [(''medical'', VBool True)]\<rparr>],
                seen @ [(''nfcorpus-'' @ format_val py cid, True)])"
proof -
  from assms(2) have "contains item ''corpus-id''"
    by (auto simp: contains_def getitem_def split: option.splits)
  moreover from assms(3) have "get_default item ''corpus-text'' d = t" for d
    by (auto simp: getitem_def get_default_def split: option.splits)
  ultimately show ?thesis
    using assms(1,2,4) by (simp add: nfcorpus_body_def update_absent Let_def)
qed

text \<open>For a context that is in the table, the iteration does not read \<^verbatim>\<open>title\<close> at all.\<close>

lemma squad_title_not_read:
  assumes "getitem item ''context'' = Inr c" and "hash_key c = Inr k"
    and "map_of seen k = Some v" and "getitem item ''question'' = Inr q"
  shows "squad_body (qs, cs, seen) (i, item) =
           Inr (qs @ [\<lparr>qid = ''squad-q-'' @ str_nat i, query_text = q,
                        relevantDocs = [v], relevanceScores = [1],
                        tags = [''qa'', ''squad'']\<rparr>],
                cs, seen)"
  using assms by (simp add: squad_body_def)

lemma example_no_text_batch:
  "nfcorpus_loop example_python example_no_text =
     Inr ([\<lparr>qid = ''nfcorpus-q-0'', query_text = VStr ''q0'',
             relevantDocs = [''nfcorpus-MED-1''], relevanceScores = [1],
             tags = [''medical'', ''nfcorpus'']\<rparr>,
           \<lparr>qid = ''nfcorpus-q-1'', query_text = VStr ''q1'',
             relevantDocs = [''nfcorpus-MED-2''], relevanceScores = [1],
             tags = [''medical'', ''nfcorpus'']\<rparr>],
          [\<lparr>docid = ''nfcorpus-MED-1'', content = VStr ''Document nfcorpus-MED-1'',
             metadata = [(''medical'', VBool True)]\<rparr>,
           \<lparr>docid = ''nfcorpus-MED-2'', content = VStr ''Document nfcorpus-MED-2'',
             metadata = [(''medical'', VBool True)]\<rparr>])"
  by (simp add: nfcorpus_loop_def nfcorpus_body_def getitem_def contains_def get_default_def
      str_nat_small str_nat_unary example_no_text_def example_python_def Let_def)

subsection \<open>What a successful adapter has written\<close>

lemma download_True:
  assumes "fst (except_false
     (then_io (load_dataset w args fs) (\<lambda>dataset fs.
      then_io (loop dataset, fs) (\<lambda>b fs. write_batch w dir qp cp b fs))))"
  shows "\<exists>ds qs cs. hub w args = Inr ds \<and> loop ds = Inr (qs, cs) \<and>
           except_false
             (then_io (load_dataset w args fs) (\<lambda>dataset fs.
              then_io (loop dataset, fs) (\<lambda>b fs. write_batch w dir qp cp b fs))) =
           (True, fs(qp \<mapsto> map QueryLine qs, cp \<mapsto> map DocLine cs))"
proof -
  from assms obtain ds where ds: "hub w args = Inr ds"
    by (cases "hub w args") (simp_all add: download_result)
  with assms obtain b where b: "loop ds = Inr b"
    by (cases "loop ds") (simp_all add: download_result)
  obtain qs cs where qc: "b = (qs, cs)" by (cases b)
  from assms ds b have nb: "\<not> blocked w dir" "\<not> blocked w qp" "\<not> blocked w cp"
    by (simp_all add: download_result)
  from download_written [where loop = loop, OF ds b [unfolded qc] nb] ds b qc
  show ?thesis by blast
qed

text \<open>
  When an adapter returns true, the two files it has written hold exactly the batch that
  \<open>normalize\<close> builds from the rows the hub served.
\<close>

lemma run_writes_batch:
  assumes "fst (run a py w fs) = Inr True" and "batch_paths a = (dir, qp, cp)"
  shows "\<exists>ds qs cs. (a = Sample \<or> hub w (hub_args a) = Inr ds) \<and>
           normalize a py ds = Inr (qs, cs) \<and>
           snd (run a py w fs) = fs(qp \<mapsto> map QueryLine qs, cp \<mapsto> map DocLine cs)"
proof (cases a)
  case Sample
  with assms(1) have nb: "\<not> blocked w ''datasets/sample''"
    "\<not> blocked w ''datasets/sample/queries.jsonl''"
    "\<not> blocked w ''datasets/sample/corpus.jsonl''"
    by (simp_all add: create_sample_dataset_def write_batch_result split: if_splits)
  then have "snd (run a py w fs) =
      fs(''datasets/sample/queries.jsonl'' \<mapsto> map QueryLine sample_queries,
         ''datasets/sample/corpus.jsonl'' \<mapsto> map DocLine sample_corpus)"
    using Sample
    by (simp add: create_sample_dataset_def write_batch_def then_io_def ensure_dir_def
        save_jsonl_def)
  with Sample assms(2) show ?thesis by auto
next
  case Sts17
  with assms(1) have "fst (download_mteb_sts17 py w fs)" by simp
  from download_True [OF this [unfolded download_mteb_sts17_def]] Sts17 assms(2)
  show ?thesis by (auto simp: download_mteb_sts17_def)
next
  case Squad
  with assms(1) have "fst (download_squad_sample w fs)" by simp
  from download_True [OF this [unfolded download_squad_sample_def]] Squad assms(2)
  show ?thesis by (auto simp: download_squad_sample_def)
next
  case Quora
  with assms(1) have "fst (download_quora_sample w fs)" by simp
  from download_True [OF this [unfolded download_quora_sample_def]] Quora assms(2)
  show ?thesis by (auto simp: download_quora_sample_def)
next
  case Nfcorpus
  with assms(1) have "fst (download_nfcorpus_sample py w fs)" by simp
  from download_True [OF this [unfolded download_nfcorpus_sample_def]] Nfcorpus assms(2)
  show ?thesis by (auto simp: download_nfcorpus_sample_def)
qed

section \<open>The claims\<close>

text \<open>
  C1. In the batch of every adapter (the built-in sample, STS-17, SQuAD, Quora, NFCorpus),
  every ID in the \<open>relevantDocs\<close> of every query is the ID of a document of the corpus of
  the same batch.
\<close>

theorem referential_integrity:
  assumes "normalize a py ds = Inr (qs, cs)" and "q \<in> set qs" and "v \<in> set (relevantDocs q)"
  shows "v \<in> docid ` set cs"
  using normalize_wf [OF assms(1)] assms(2,3) by blast

theorem referential_integrity_witness:
  "(\<exists>qs cs q v. normalize Sample example_python [] = Inr (qs, cs) \<and> q \<in> set qs \<and>
      v \<in> set (relevantDocs q) \<and> v \<in> docid ` set cs) \<and>
   (\<exists>qs cs q v. normalize Sts17 example_python example_sts17 = Inr (qs, cs) \<and> q \<in> set qs \<and>
      v \<in> set (relevantDocs q) \<and> v \<in> docid ` set cs) \<and>
   (\<exists>qs cs q v. normalize Squad example_python example_squad = Inr (qs, cs) \<and> q \<in> set qs \<and>
      v \<in> set (relevantDocs q) \<and> v \<in> docid ` set cs) \<and>
   (\<exists>qs cs q v. normalize Quora example_python example_quora = Inr (qs, cs) \<and> q \<in> set qs \<and>
      v \<in> set (relevantDocs q) \<and> v \<in> docid ` set cs) \<and>
   (\<exists>qs cs q v. normalize Nfcorpus example_python example_nfcorpus = Inr (qs, cs) \<and>
      q \<in> set qs \<and> v \<in> set (relevantDocs q) \<and> v \<in> docid ` set cs)"
proof -
  have w: "\<exists>qs cs q v. normalize a example_python ds = Inr (qs, cs) \<and> q \<in> set qs \<and>
      v \<in> set (relevantDocs q) \<and> v \<in> docid ` set cs"
    if "normalize a example_python ds = Inr (qs0, cs0)" "qs0 \<noteq> []" "relevantDocs (hd qs0) \<noteq> []"
    for a ds qs0 cs0
  proof -
    have "hd qs0 \<in> set qs0" "hd (relevantDocs (hd qs0)) \<in> set (relevantDocs (hd qs0))"
      using that(2,3) by simp_all
    with referential_integrity [OF that(1), of "hd qs0" "hd (relevantDocs (hd qs0))"] that(1)
    show ?thesis by blast
  qed
  have "\<exists>qs cs q v. normalize Sample example_python [] = Inr (qs, cs) \<and> q \<in> set qs \<and>
      v \<in> set (relevantDocs q) \<and> v \<in> docid ` set cs"
    by (rule w [OF example_normalize(1)]) (simp_all add: sample_queries_def)
  moreover have "\<exists>qs cs q v. normalize Sts17 example_python example_sts17 = Inr (qs, cs) \<and>
      q \<in> set qs \<and> v \<in> set (relevantDocs q) \<and> v \<in> docid ` set cs"
    by (rule w [OF trans [OF example_normalize(2) example_sts17_batch]]) simp_all
  moreover have "\<exists>qs cs q v. normalize Squad example_python example_squad = Inr (qs, cs) \<and>
      q \<in> set qs \<and> v \<in> set (relevantDocs q) \<and> v \<in> docid ` set cs"
    by (rule w [OF trans [OF example_normalize(3) example_squad_batch]]) simp_all
  moreover have "\<exists>qs cs q v. normalize Quora example_python example_quora = Inr (qs, cs) \<and>
      q \<in> set qs \<and> v \<in> set (relevantDocs q) \<and> v \<in> docid ` set cs"
    by (rule w [OF trans [OF example_normalize(4) example_quora_batch]]) simp_all
  moreover have "\<exists>qs cs q v. normalize Nfcorpus example_python example_nfcorpus = Inr (qs, cs) \<and>
      q \<in> set qs \<and> v \<in> set (relevantDocs q) \<and> v \<in> docid ` set cs"
    by (rule w [OF trans [OF example_normalize(5) example_nfcorpus_batch]]) simp_all
  ultimately show ?thesis by (intro conjI)
qed

text \<open>
  C2. Deduplication by content. In one iteration of the SQuAD loop, a context whose key is
  not in the table appends one document with that context and inserts the key with the
  new ID, and a context whose key is in the table appends no document, leaves the table
  as it is and uses the stored ID; the step that Quora applies to each of the two
  questions does the same. Hence, when two SQuAD rows have contexts with the same key
  (for texts: the same text), the corpus of the batch holds exactly one document with
  that key and the queries of both rows have exactly its ID as relevant documents; and
  when two duplicate Quora rows have second questions with the same key, the corpus
  holds exactly one document with that key and the queries of both rows have exactly its
  ID as relevant documents.
\<close>

theorem dedup_by_content:
  "(squad_body (qsa, csa, seena) (i, item) = Inr (qsb, csb, seenb) \<and>
      getitem item ''context'' = Inr c \<and> hash_key c = Inr k \<longrightarrow>
      (case map_of seena k of
         None \<Rightarrow> (\<exists>m. csb = csa @ [\<lparr>docid = ''squad-doc-'' @ str_nat (length seena),
                                   content = c, metadata = m\<rparr>]) \<and>
                 seenb = seena @ [(k, ''squad-doc-'' @ str_nat (length seena))] \<and>
                 relevantDocs (last qsb) = [''squad-doc-'' @ str_nat (length seena)]
       | Some v \<Rightarrow> csb = csa \<and> seenb = seena \<and> relevantDocs (last qsb) = [v])) \<and>
   (quora_add (csc, seenc) t = Inr (csd, seend) \<and> hash_key t = Inr k' \<longrightarrow>
      (case map_of seenc k' of
         None \<Rightarrow> csd = csc @ [\<lparr>docid = ''quora-q-'' @ str_nat (length seenc),
                              content = t, metadata = []\<rparr>] \<and>
                 seend = seenc @ [(k', ''quora-q-'' @ str_nat (length seenc))]
       | Some v \<Rightarrow> csd = csc \<and> seend = seenc)) \<and>
   (squad_loop ds = Inr (qs, cs) \<and> x < length ds \<and> y < length ds \<and>
      getitem (ds ! x) ''context'' = Inr cx \<and> getitem (ds ! y) ''context'' = Inr cy \<and>
      hash_key cx = hash_key cy \<longrightarrow>
      (\<exists>d. filter (\<lambda>d. hash_key (content d) = hash_key cx) cs = [d] \<and>
           relevantDocs (qs ! x) = [docid d] \<and> relevantDocs (qs ! y) = [docid d])) \<and>
   (quora_loop dq = Inr (qq, cq) \<and> x' < length dq \<and> y' < length dq \<and>
      getitem (dq ! x') ''is_duplicate'' = Inr ex \<and> truthy ex \<and>
      getitem (dq ! y') ''is_duplicate'' = Inr ey \<and> truthy ey \<and>
      quora_question (dq ! x') 1 = Inr tx \<and> quora_question (dq ! y') 1 = Inr ty \<and>
      hash_key tx = hash_key ty \<longrightarrow>
      (\<exists>d qx qy. filter (\<lambda>d. hash_key (content d) = hash_key tx) cq = [d] \<and>
           qx \<in> set qq \<and> qid qx = ''quora-pair-'' @ str_nat x' \<and> relevantDocs qx = [docid d] \<and>
           qy \<in> set qq \<and> qid qy = ''quora-pair-'' @ str_nat y' \<and> relevantDocs qy = [docid d]))"
proof (intro conjI impI)
  assume "squad_body (qsa, csa, seena) (i, item) = Inr (qsb, csb, seenb) \<and>
      getitem item ''context'' = Inr c \<and> hash_key c = Inr k"
  then show "case map_of seena k of
         None \<Rightarrow> (\<exists>m. csb = csa @ [\<lparr>docid = ''squad-doc-'' @ str_nat (length seena),
                                   content = c, metadata = m\<rparr>]) \<and>
                 seenb = seena @ [(k, ''squad-doc-'' @ str_nat (length seena))] \<and>
                 relevantDocs (last qsb) = [''squad-doc-'' @ str_nat (length seena)]
       | Some v \<Rightarrow> csb = csa \<and> seenb = seena \<and> relevantDocs (last qsb) = [v]"
    by (elim conjE) (rule squad_body_dedup; assumption)
next
  assume "quora_add (csc, seenc) t = Inr (csd, seend) \<and> hash_key t = Inr k'"
  then show "case map_of seenc k' of
         None \<Rightarrow> csd = csc @ [\<lparr>docid = ''quora-q-'' @ str_nat (length seenc),
                              content = t, metadata = []\<rparr>] \<and>
                 seend = seenc @ [(k', ''quora-q-'' @ str_nat (length seenc))]
       | Some v \<Rightarrow> csd = csc \<and> seend = seenc"
    by (elim conjE) (rule quora_add_dedup; assumption)
next
  assume "squad_loop ds = Inr (qs, cs) \<and> x < length ds \<and> y < length ds \<and>
      getitem (ds ! x) ''context'' = Inr cx \<and> getitem (ds ! y) ''context'' = Inr cy \<and>
      hash_key cx = hash_key cy"
  then show "\<exists>d. filter (\<lambda>d. hash_key (content d) = hash_key cx) cs = [d] \<and>
           relevantDocs (qs ! x) = [docid d] \<and> relevantDocs (qs ! y) = [docid d]"
    by (elim conjE) (rule squad_shared_document; assumption)
next
  assume "quora_loop dq = Inr (qq, cq) \<and> x' < length dq \<and> y' < length dq \<and>
      getitem (dq ! x') ''is_duplicate'' = Inr ex \<and> truthy ex \<and>
      getitem (dq ! y') ''is_duplicate'' = Inr ey \<and> truthy ey \<and>
      quora_question (dq ! x') 1 = Inr tx \<and> quora_question (dq ! y') 1 = Inr ty \<and>
      hash_key tx = hash_key ty"
  then show "\<exists>d qx qy. filter (\<lambda>d. hash_key (content d) = hash_key tx) cq = [d] \<and>
           qx \<in> set qq \<and> qid qx = ''quora-pair-'' @ str_nat x' \<and> relevantDocs qx = [docid d] \<and>
           qy \<in> set qq \<and> qid qy = ''quora-pair-'' @ str_nat y' \<and> relevantDocs qy = [docid d]"
    by (elim conjE) (rule quora_shared_document; assumption)
qed

theorem dedup_by_content_witness:
  "getitem (example_squad ! 1) ''context'' = Inr (VStr ''same text'') \<and>
   hash_key (VStr ''same text'') = Inr (KStr ''same text'') \<and>
   (\<exists>qsb. squad_body ([], [], [(KStr ''same text'', ''squad-doc-0'')]) (1, example_squad ! 1) =
             Inr (qsb, [], [(KStr ''same text'', ''squad-doc-0'')]) \<and>
          relevantDocs (last qsb) = [''squad-doc-0'']) \<and>
   hash_key (VStr ''b'') = Inr (KStr ''b'') \<and>
   quora_add ([], []) (VStr ''b'') =
     Inr ([\<lparr>docid = ''quora-q-0'', content = VStr ''b'', metadata = []\<rparr>],
          [(KStr ''b'', ''quora-q-0'')]) \<and>
   0 < length example_squad \<and> 1 < length example_squad \<and>
   getitem (example_squad ! 0) ''context'' = Inr (VStr ''same text'') \<and>
   (\<exists>qs cs d. squad_loop example_squad = Inr (qs, cs) \<and>
      filter (\<lambda>d. hash_key (content d) = hash_key (VStr ''same text'')) cs = [d] \<and>
      relevantDocs (qs ! 0) = [docid d] \<and> relevantDocs (qs ! 1) = [docid d]) \<and>
   0 < length example_quora \<and> 2 < length example_quora \<and>
   getitem (example_quora ! 0) ''is_duplicate'' = Inr (VBool True) \<and>
   getitem (example_quora ! 2) ''is_duplicate'' = Inr (VBool True) \<and> truthy (VBool True) \<and>
   quora_question (example_quora ! 0) 1 = Inr (VStr ''b'') \<and>
   quora_question (example_quora ! 2) 1 = Inr (VStr ''b'') \<and>
   (\<exists>qq cq d qx qy. quora_loop example_quora = Inr (qq, cq) \<and>
      filter (\<lambda>d. hash_key (content d) = hash_key (VStr ''b'')) cq = [d] \<and>
      qx \<in> set qq \<and> qid qx = ''quora-pair-'' @ str_nat 0 \<and> relevantDocs qx = [docid d] \<and>
      qy \<in> set qq \<and> qid qy = ''quora-pair-'' @ str_nat 2 \<and> relevantDocs qy = [docid d])"
proof -
  have s1: "getitem (example_squad ! 1) ''context'' = Inr (VStr ''same text'')"
    and s0: "getitem (example_squad ! 0) ''context'' = Inr (VStr ''same text'')"
    and sl: "0 < length example_squad" "1 < length example_squad"
    by (simp_all add: example_squad_def getitem_def)
  obtain qsb where sb:
    "squad_body ([], [], [(KStr ''same text'', ''squad-doc-0'')]) (1, example_squad ! 1) =
       Inr (qsb, [], [(KStr ''same text'', ''squad-doc-0'')])"
    by (simp add: squad_body_def example_squad_def getitem_def)
  have qa: "quora_add ([], []) (VStr ''b'') =
     Inr ([\<lparr>docid = ''quora-q-0'', content = VStr ''b'', metadata = []\<rparr>],
          [(KStr ''b'', ''quora-q-0'')])"
    by (simp add: quora_add_def str_nat_small Let_def)
  obtain qs cs where sq: "squad_loop example_squad = Inr (qs, cs)"
    using example_squad_batch by simp
  obtain qq cq where qu: "quora_loop example_quora = Inr (qq, cq)"
    using example_quora_batch by simp
  have ql: "0 < length example_quora" "2 < length example_quora"
    and qd: "getitem (example_quora ! 0) ''is_duplicate'' = Inr (VBool True)"
      "getitem (example_quora ! 2) ''is_duplicate'' = Inr (VBool True)"
    and qt: "quora_question (example_quora ! 0) 1 = Inr (VStr ''b'')"
      "quora_question (example_quora ! 2) 1 = Inr (VStr ''b'')"
    by (simp_all add: example_quora_def getitem_def quora_question_def)
  note T = dedup_by_content [where qsa = "[]" and csa = "[]" and
      seena = "[(KStr ''same text'', ''squad-doc-0'')]" and i = 1 and item = "example_squad ! 1" and
      qsb = qsb and csb = "[]" and seenb = "[(KStr ''same text'', ''squad-doc-0'')]" and
      c = "VStr ''same text''" and k = "KStr ''same text''" and
      csc = "[]" and seenc = "[]" and t = "VStr ''b''" and
      csd = "[\<lparr>docid = ''quora-q-0'', content = VStr ''b'', metadata = []\<rparr>]" and
      seend = "[(KStr ''b'', ''quora-q-0'')]" and k' = "KStr ''b''" and
      ds = example_squad and qs = qs and cs = cs and x = 0 and y = 1 and
      cx = "VStr ''same text''" and cy = "VStr ''same text''" and
      dq = example_quora and qq = qq and cq = cq and x' = 0 and y' = 2 and
      ex = "VBool True" and ey = "VBool True" and tx = "VStr ''b''" and ty = "VStr ''b''"]
  from T sb s1 have a: "relevantDocs (last qsb) = [''squad-doc-0'']" by simp
  from T sq sl s0 s1 have b: "\<exists>d. filter (\<lambda>d. hash_key (content d) = hash_key (VStr ''same text'')) cs = [d] \<and>
      relevantDocs (qs ! 0) = [docid d] \<and> relevantDocs (qs ! 1) = [docid d]"
    by simp
  from T qu ql qd qt have c: "\<exists>d qx qy.
      filter (\<lambda>d. hash_key (content d) = hash_key (VStr ''b'')) cq = [d] \<and>
      qx \<in> set qq \<and> qid qx = ''quora-pair-'' @ str_nat 0 \<and> relevantDocs qx = [docid d] \<and>
      qy \<in> set qq \<and> qid qy = ''quora-pair-'' @ str_nat 2 \<and> relevantDocs qy = [docid d]"
    by simp
  from a sb have a': "\<exists>qsb. squad_body ([], [], [(KStr ''same text'', ''squad-doc-0'')]) (1, example_squad ! 1) =
             Inr (qsb, [], [(KStr ''same text'', ''squad-doc-0'')]) \<and>
          relevantDocs (last qsb) = [''squad-doc-0'']" by blast
  from b sq have b': "\<exists>qs cs d. squad_loop example_squad = Inr (qs, cs) \<and>
      filter (\<lambda>d. hash_key (content d) = hash_key (VStr ''same text'')) cs = [d] \<and>
      relevantDocs (qs ! 0) = [docid d] \<and> relevantDocs (qs ! 1) = [docid d]" by blast
  from c qu have c': "\<exists>qq cq d qx qy. quora_loop example_quora = Inr (qq, cq) \<and>
      filter (\<lambda>d. hash_key (content d) = hash_key (VStr ''b'')) cq = [d] \<and>
      qx \<in> set qq \<and> qid qx = ''quora-pair-'' @ str_nat 0 \<and> relevantDocs qx = [docid d] \<and>
      qy \<in> set qq \<and> qid qy = ''quora-pair-'' @ str_nat 2 \<and> relevantDocs qy = [docid d]" by blast
  have h: "hash_key (VStr ''same text'') = Inr (KStr ''same text'')"
    "hash_key (VStr ''b'') = Inr (KStr ''b'')" "truthy (VBool True)" by simp_all
  from s1 h(1) a' h(2) qa sl s0 b' ql qd h(3) qt c' show ?thesis by (intro conjI)
qed

text \<open>
  C3, as the code has it. A field that an adapter reads by subscript must be present:
  when the dataset has a row without \<^verbatim>\<open>sentence1\<close>, \<^verbatim>\<open>score\<close> or \<^verbatim>\<open>sentence2\<close> (STS-17),
  without \<^verbatim>\<open>context\<close> or \<^verbatim>\<open>question\<close> (SQuAD), without \<^verbatim>\<open>questions\<close> or \<^verbatim>\<open>is_duplicate\<close>
  (Quora), or without \<^verbatim>\<open>query\<close> (NFCorpus), the adapter returns false and writes no file.
  SQuAD reads \<^verbatim>\<open>title\<close> only for a context that is not in the table: there it raises
  KeyError when \<^verbatim>\<open>title\<close> is absent, and for a context that is in the table the iteration
  returns the query with the stored ID and leaves corpus and table as they are, whether
  the row has a \<^verbatim>\<open>title\<close> or not. NFCorpus reads \<^verbatim>\<open>corpus-id\<close> and \<^verbatim>\<open>corpus-text\<close> as optional
  fields: a row without \<^verbatim>\<open>corpus-id\<close> leaves queries, corpus and table as they are, and
  a new document gets the \<^verbatim>\<open>corpus-text\<close> of its row as content, or, when the row has
  none, \<^verbatim>\<open>Document\<close> followed by its ID.
\<close>

theorem missing_field_policy:
  "(hub w [''mteb/sts17-crosslingual-sts'', ''en-en'', ''test''] = Inr dsa \<and> itema \<in> set dsa \<and>
      (\<not> contains itema ''sentence1'' \<or> \<not> contains itema ''score'' \<or>
       \<not> contains itema ''sentence2'') \<longrightarrow>
      download_mteb_sts17 py w fs = (False, fs)) \<and>
   (hub w [''squad'', ''validation[:100]''] = Inr dsb \<and> itemb \<in> set dsb \<and>
      (\<not> contains itemb ''context'' \<or> \<not> contains itemb ''question'') \<longrightarrow>
      download_squad_sample w fs = (False, fs)) \<and>
   (getitem itemc ''context'' = Inr c \<and> hash_key c = Inr k \<and> map_of seenc k = None \<and>
      \<not> contains itemc ''title'' \<longrightarrow>
      squad_body (qsc, csc, seenc) (i, itemc) = Inl (KeyError (VStr ''title''))) \<and>
   (getitem itemh ''context'' = Inr ch \<and> hash_key ch = Inr kh \<and> map_of seenh kh = Some vh \<and>
      getitem itemh ''question'' = Inr qh \<longrightarrow>
      squad_body (qsh, csh, seenh) (n, itemh) =
        Inr (qsh @ [\<lparr>qid = ''squad-q-'' @ str_nat n, query_text = qh,
                      relevantDocs = [vh], relevanceScores = [1],
                      tags = [''qa'', ''squad'']\<rparr>],
             csh, seenh)) \<and>
   (hub w [''quora'', ''train[:200]''] = Inr dsd \<and> itemd \<in> set dsd \<and>
      (\<not> contains itemd ''questions'' \<or> \<not> contains itemd ''is_duplicate'') \<longrightarrow>
      download_quora_sample w fs = (False, fs)) \<and>
   (hub w [''mteb/nfcorpus'', ''test[:100]''] = Inr dse \<and> iteme \<in> set dse \<and>
      \<not> contains iteme ''query'' \<longrightarrow>
      download_nfcorpus_sample py w fs = (False, fs)) \<and>
   (getitem itemf ''query'' = Inr qf \<and> \<not> contains itemf ''corpus-id'' \<longrightarrow>
      nfcorpus_body py (qsf, csf, seenf) (j, itemf) = Inr (qsf, csf, seenf)) \<and>
   (getitem itemg ''query'' = Inr qg \<and> getitem itemg ''corpus-id'' = Inr cid \<and>
      \<not> contains itemg ''corpus-text'' \<and>
      map_of seeng (''nfcorpus-'' @ format_val py cid) = None \<longrightarrow>
      (\<exists>qs'. nfcorpus_body py (qsg, csg, seeng) (l, itemg) =
           Inr (qs',
                csg @ [\<lparr>docid = ''nfcorpus-'' @ format_val py cid,
                        content = VStr (''Document '' @ ''nfcorpus-'' @ format_val py cid),
                        metadata = [(''medical'', VBool True)]\<rparr>],
                seeng @ [(''nfcorpus-'' @ format_val py cid, True)]))) \<and>
   (getitem itemp ''query'' = Inr qp \<and> getitem itemp ''corpus-id'' = Inr cidp \<and>
      getitem itemp ''corpus-text'' = Inr tp \<and>
      map_of seenp (''nfcorpus-'' @ format_val py cidp) = None \<longrightarrow>
      (\<exists>qs'. nfcorpus_body py (qsp, csp, seenp) (r, itemp) =
           Inr (qs',
                csp @ [\<lparr>docid = ''nfcorpus-'' @ format_val py cidp, content = tp,
                        metadata = [(''medical'', VBool True)]\<rparr>],
                seenp @ [(''nfcorpus-'' @ format_val py cidp, True)])))"
proof (intro conjI impI)
  assume h: "hub w [''mteb/sts17-crosslingual-sts'', ''en-en'', ''test''] = Inr dsa \<and>
      itema \<in> set dsa \<and>
      (\<not> contains itema ''sentence1'' \<or> \<not> contains itema ''score'' \<or>
       \<not> contains itema ''sentence2'')"
  then obtain e where "sts17_loop py dsa = Inl e"
    using sts17_loop_raises [of itema dsa py] by blast
  with h show "download_mteb_sts17 py w fs = (False, fs)"
    unfolding download_mteb_sts17_def by (intro download_aborted) simp_all
next
  assume h: "hub w [''squad'', ''validation[:100]''] = Inr dsb \<and> itemb \<in> set dsb \<and>
      (\<not> contains itemb ''context'' \<or> \<not> contains itemb ''question'')"
  then obtain e where "squad_loop dsb = Inl e"
    using squad_loop_raises [of itemb dsb] by blast
  with h show "download_squad_sample w fs = (False, fs)"
    unfolding download_squad_sample_def by (intro download_aborted) simp_all
next
  assume "getitem itemc ''context'' = Inr c \<and> hash_key c = Inr k \<and> map_of seenc k = None \<and>
      \<not> contains itemc ''title''"
  then show "squad_body (qsc, csc, seenc) (i, itemc) = Inl (KeyError (VStr ''title''))"
    by (elim conjE) (rule squad_title_required; assumption)
next
  assume "getitem itemh ''context'' = Inr ch \<and> hash_key ch = Inr kh \<and>
      map_of seenh kh = Some vh \<and> getitem itemh ''question'' = Inr qh"
  then show "squad_body (qsh, csh, seenh) (n, itemh) =
        Inr (qsh @ [\<lparr>qid = ''squad-q-'' @ str_nat n, query_text = qh,
                      relevantDocs = [vh], relevanceScores = [1],
                      tags = [''qa'', ''squad'']\<rparr>],
             csh, seenh)"
    by (elim conjE) (rule squad_title_not_read; assumption)
next
  assume h: "hub w [''quora'', ''train[:200]''] = Inr dsd \<and> itemd \<in> set dsd \<and>
      (\<not> contains itemd ''questions'' \<or> \<not> contains itemd ''is_duplicate'')"
  then obtain e where "quora_loop dsd = Inl e"
    using quora_loop_raises [of itemd dsd] by blast
  with h show "download_quora_sample w fs = (False, fs)"
    unfolding download_quora_sample_def by (intro download_aborted) simp_all
next
  assume h: "hub w [''mteb/nfcorpus'', ''test[:100]''] = Inr dse \<and> iteme \<in> set dse \<and>
      \<not> contains iteme ''query''"
  then obtain e where "nfcorpus_loop py dse = Inl e"
    using nfcorpus_loop_raises [of iteme dse py] by blast
  with h show "download_nfcorpus_sample py w fs = (False, fs)"
    unfolding download_nfcorpus_sample_def by (intro download_aborted) simp_all
next
  assume "getitem itemf ''query'' = Inr qf \<and> \<not> contains itemf ''corpus-id''"
  then show "nfcorpus_body py (qsf, csf, seenf) (j, itemf) = Inr (qsf, csf, seenf)"
    by (elim conjE) (rule nfcorpus_skips_row; assumption)
next
  assume "getitem itemg ''query'' = Inr qg \<and> getitem itemg ''corpus-id'' = Inr cid \<and>
      \<not> contains itemg ''corpus-text'' \<and>
      map_of seeng (''nfcorpus-'' @ format_val py cid) = None"
  then show "\<exists>qs'. nfcorpus_body py (qsg, csg, seeng) (l, itemg) =
           Inr (qs',
                csg @ [\<lparr>docid = ''nfcorpus-'' @ format_val py cid,
                        content = VStr (''Document '' @ ''nfcorpus-'' @ format_val py cid),
                        metadata = [(''medical'', VBool True)]\<rparr>],
                seeng @ [(''nfcorpus-'' @ format_val py cid, True)])"
    by (elim conjE) (rule nfcorpus_default_content; assumption)
next
  assume "getitem itemp ''query'' = Inr qp \<and> getitem itemp ''corpus-id'' = Inr cidp \<and>
      getitem itemp ''corpus-text'' = Inr tp \<and>
      map_of seenp (''nfcorpus-'' @ format_val py cidp) = None"
  then show "\<exists>qs'. nfcorpus_body py (qsp, csp, seenp) (r, itemp) =
           Inr (qs',
                csp @ [\<lparr>docid = ''nfcorpus-'' @ format_val py cidp, content = tp,
                        metadata = [(''medical'', VBool True)]\<rparr>],
                seenp @ [(''nfcorpus-'' @ format_val py cidp, True)])"
    by (elim conjE) (rule nfcorpus_given_content; assumption)
qed

theorem missing_field_policy_witness:
  "hub empty_row_world [''mteb/sts17-crosslingual-sts'', ''en-en'', ''test''] = Inr [[]] \<and>
   hub empty_row_world [''squad'', ''validation[:100]''] = Inr [[]] \<and>
   hub empty_row_world [''quora'', ''train[:200]''] = Inr [[]] \<and>
   hub empty_row_world [''mteb/nfcorpus'', ''test[:100]''] = Inr [[]] \<and>
   \<not> contains [] ''sentence1'' \<and> \<not> contains [] ''context'' \<and>
   \<not> contains [] ''questions'' \<and> \<not> contains [] ''query'' \<and>
   download_mteb_sts17 example_python empty_row_world Map.empty = (False, Map.empty) \<and>
   download_squad_sample empty_row_world Map.empty = (False, Map.empty) \<and>
   download_quora_sample empty_row_world Map.empty = (False, Map.empty) \<and>
   download_nfcorpus_sample example_python empty_row_world Map.empty = (False, Map.empty) \<and>
   \<not> contains [(''context'', VStr ''x'')] ''title'' \<and>
   squad_body ([], [], []) (0, [(''context'', VStr ''x'')]) = Inl (KeyError (VStr ''title'')) \<and>
   \<not> contains [(''context'', VStr ''same text''), (''question'', VStr ''q1'')] ''title'' \<and>
   squad_body
     ([], [], [(KStr ''same text'', ''squad-doc-0'')])
     (1, [(''context'', VStr ''same text''), (''question'', VStr ''q1'')]) =
     Inr ([\<lparr>qid = ''squad-q-1'', query_text = VStr ''q1'',
             relevantDocs = [''squad-doc-0''], relevanceScores = [1],
             tags = [''qa'', ''squad'']\<rparr>],
          [], [(KStr ''same text'', ''squad-doc-0'')]) \<and>
   squad_loop
     [[(''context'', VStr ''same text''), (''title'', VStr ''T''), (''question'', VStr ''q0'')],
      [(''context'', VStr ''same text''), (''question'', VStr ''q1'')]] =
     Inr ([\<lparr>qid = ''squad-q-0'', query_text = VStr ''q0'',
             relevantDocs = [''squad-doc-0''], relevanceScores = [1],
             tags = [''qa'', ''squad'']\<rparr>,
           \<lparr>qid = ''squad-q-1'', query_text = VStr ''q1'',
             relevantDocs = [''squad-doc-0''], relevanceScores = [1],
             tags = [''qa'', ''squad'']\<rparr>],
          [\<lparr>docid = ''squad-doc-0'', content = VStr ''same text'',
             metadata = [(''title'', VStr ''T'')]\<rparr>]) \<and>
   \<not> contains (example_nfcorpus ! 0) ''corpus-id'' \<and>
   nfcorpus_body example_python ([], [], []) (0, example_nfcorpus ! 0) = Inr ([], [], []) \<and>
   \<not> contains (example_nfcorpus ! 1) ''corpus-text'' \<and>
   (\<exists>qs'. nfcorpus_body example_python ([], [], []) (1, example_nfcorpus ! 1) =
      Inr (qs',
           [\<lparr>docid = ''nfcorpus-MED-1'', content = VStr ''Document nfcorpus-MED-1'',
              metadata = [(''medical'', VBool True)]\<rparr>],
           [(''nfcorpus-MED-1'', True)])) \<and>
   getitem (example_nfcorpus ! 2) ''corpus-text'' = Inr (VStr ''x'') \<and>
   (\<exists>qs'. nfcorpus_body example_python ([], [], []) (2, example_nfcorpus ! 2) =
      Inr (qs',
           [\<lparr>docid = ''nfcorpus-MED-1'', content = VStr ''x'',
              metadata = [(''medical'', VBool True)]\<rparr>],
           [(''nfcorpus-MED-1'', True)]))"
proof -
  have hubs:
    "hub empty_row_world [''mteb/sts17-crosslingual-sts'', ''en-en'', ''test''] = Inr [[]]"
    "hub empty_row_world [''squad'', ''validation[:100]''] = Inr [[]]"
    "hub empty_row_world [''quora'', ''train[:200]''] = Inr [[]]"
    "hub empty_row_world [''mteb/nfcorpus'', ''test[:100]''] = Inr [[]]"
    by (simp_all add: empty_row_world_def)
  have absent: "\<not> contains [] ''sentence1''" "\<not> contains [] ''context''"
    "\<not> contains [] ''questions''" "\<not> contains [] ''query''"
    "\<not> contains [(''context'', VStr ''x'')] ''title''"
    "\<not> contains [(''context'', VStr ''same text''), (''question'', VStr ''q1'')] ''title''"
    "\<not> contains (example_nfcorpus ! 0) ''corpus-id''"
    "\<not> contains (example_nfcorpus ! 1) ''corpus-text''"
    by (simp_all add: contains_def example_nfcorpus_def)
  have present: "getitem [(''context'', VStr ''x'')] ''context'' = Inr (VStr ''x'')"
    "hash_key (VStr ''x'') = Inr (KStr ''x'')"
    "getitem (example_nfcorpus ! 0) ''query'' = Inr (VStr ''q0'')"
    "getitem (example_nfcorpus ! 1) ''query'' = Inr (VStr ''q1'')"
    "getitem (example_nfcorpus ! 1) ''corpus-id'' = Inr (VStr ''MED-1'')"
    "getitem [(''context'', VStr ''same text''), (''question'', VStr ''q1'')] ''context'' =
       Inr (VStr ''same text'')"
    "hash_key (VStr ''same text'') = Inr (KStr ''same text'')"
    "getitem [(''context'', VStr ''same text''), (''question'', VStr ''q1'')] ''question'' =
       Inr (VStr ''q1'')"
    "getitem (example_nfcorpus ! 2) ''query'' = Inr (VStr ''q2'')"
    "getitem (example_nfcorpus ! 2) ''corpus-id'' = Inr (VStr ''MED-1'')"
    "getitem (example_nfcorpus ! 2) ''corpus-text'' = Inr (VStr ''x'')"
    by (simp_all add: getitem_def example_nfcorpus_def)
  have loop: "squad_loop
     [[(''context'', VStr ''same text''), (''title'', VStr ''T''), (''question'', VStr ''q0'')],
      [(''context'', VStr ''same text''), (''question'', VStr ''q1'')]] =
     Inr ([\<lparr>qid = ''squad-q-0'', query_text = VStr ''q0'',
             relevantDocs = [''squad-doc-0''], relevanceScores = [1],
             tags = [''qa'', ''squad'']\<rparr>,
           \<lparr>qid = ''squad-q-1'', query_text = VStr ''q1'',
             relevantDocs = [''squad-doc-0''], relevanceScores = [1],
             tags = [''qa'', ''squad'']\<rparr>],
          [\<lparr>docid = ''squad-doc-0'', content = VStr ''same text'',
             metadata = [(''title'', VStr ''T'')]\<rparr>])"
    by (simp add: squad_loop_def squad_body_def getitem_def str_nat_small Let_def)
  note T = missing_field_policy [where w = empty_row_world and py = example_python and
      fs = Map.empty and dsa = "[[]]" and itema = "[]" and dsb = "[[]]" and itemb = "[]" and
      itemc = "[(''context'', VStr ''x'')]" and c = "VStr ''x''" and k = "KStr ''x''" and
      seenc = "[]" and qsc = "[]" and csc = "[]" and i = 0 and
      dsd = "[[]]" and itemd = "[]" and dse = "[[]]" and iteme = "[]" and
      itemf = "example_nfcorpus ! 0" and qf = "VStr ''q0''" and qsf = "[]" and csf = "[]" and
      seenf = "[]" and j = 0 and itemg = "example_nfcorpus ! 1" and qg = "VStr ''q1''" and
      cid = "VStr ''MED-1''" and seeng = "[]" and qsg = "[]" and csg = "[]" and l = 1 and
      itemh = "[(''context'', VStr ''same text''), (''question'', VStr ''q1'')]" and
      ch = "VStr ''same text''" and kh = "KStr ''same text''" and
      seenh = "[(KStr ''same text'', ''squad-doc-0'')]" and vh = "''squad-doc-0''" and
      qh = "VStr ''q1''" and qsh = "[]" and csh = "[]" and n = 1 and
      itemp = "example_nfcorpus ! 2" and qp = "VStr ''q2''" and cidp = "VStr ''MED-1''" and
      tp = "VStr ''x''" and seenp = "[]" and qsp = "[]" and csp = "[]" and r = 2]
  from T hubs absent present loop show ?thesis by (simp add: str_nat_small)
qed

text \<open>
  C3 as stated fails on NFCorpus: no row of a dataset without a \<^verbatim>\<open>corpus-text\<close> column has
  the field that the content of a document is read from, and the adapter returns true,
  having written documents whose content is the default text.
\<close>

theorem missing_field_counterexample:
  "\<not> contains (example_no_text ! 0) ''corpus-text'' \<and>
   \<not> contains (example_no_text ! 1) ''corpus-text'' \<and>
   download_nfcorpus_sample example_python no_text_world Map.empty =
     (True,
      [''datasets/nfcorpus/queries.jsonl'' \<mapsto>
         [QueryLine \<lparr>qid = ''nfcorpus-q-0'', query_text = VStr ''q0'',
                     relevantDocs = [''nfcorpus-MED-1''], relevanceScores = [1],
                     tags = [''medical'', ''nfcorpus'']\<rparr>,
          QueryLine \<lparr>qid = ''nfcorpus-q-1'', query_text = VStr ''q1'',
                     relevantDocs = [''nfcorpus-MED-2''], relevanceScores = [1],
                     tags = [''medical'', ''nfcorpus'']\<rparr>],
       ''datasets/nfcorpus/corpus.jsonl'' \<mapsto>
         [DocLine \<lparr>docid = ''nfcorpus-MED-1'', content = VStr ''Document nfcorpus-MED-1'',
                   metadata = [(''medical'', VBool True)]\<rparr>,
          DocLine \<lparr>docid = ''nfcorpus-MED-2'', content = VStr ''Document nfcorpus-MED-2'',
                   metadata = [(''medical'', VBool True)]\<rparr>]])"
proof -
  have "\<not> contains (example_no_text ! 0) ''corpus-text''"
    "\<not> contains (example_no_text ! 1) ''corpus-text''"
    by (simp_all add: contains_def example_no_text_def)
  moreover have "hub no_text_world [''mteb/nfcorpus'', ''test[:100]''] = Inr example_no_text"
    by (simp add: no_text_world_def)
  from download_written [where loop = "nfcorpus_loop example_python" and
      dir = "''datasets/nfcorpus''" and qp = "''datasets/nfcorpus/queries.jsonl''" and
      cp = "''datasets/nfcorpus/corpus.jsonl''" and fs = Map.empty,
      OF this example_no_text_batch]
  have "download_nfcorpus_sample example_python no_text_world Map.empty =
     (True,
      [''datasets/nfcorpus/queries.jsonl'' \<mapsto>
         [QueryLine \<lparr>qid = ''nfcorpus-q-0'', query_text = VStr ''q0'',
                     relevantDocs = [''nfcorpus-MED-1''], relevanceScores = [1],
                     tags = [''medical'', ''nfcorpus'']\<rparr>,
          QueryLine \<lparr>qid = ''nfcorpus-q-1'', query_text = VStr ''q1'',
                     relevantDocs = [''nfcorpus-MED-2''], relevanceScores = [1],
                     tags = [''medical'', ''nfcorpus'']\<rparr>],
       ''datasets/nfcorpus/corpus.jsonl'' \<mapsto>
         [DocLine \<lparr>docid = ''nfcorpus-MED-1'', content = VStr ''Document nfcorpus-MED-1'',
                   metadata = [(''medical'', VBool True)]\<rparr>,
          DocLine \<lparr>docid = ''nfcorpus-MED-2'', content = VStr ''Document nfcorpus-MED-2'',
                   metadata = [(''medical'', VBool True)]\<rparr>]])"
    by (simp add: download_nfcorpus_sample_def no_text_world_def)
  ultimately show ?thesis by (intro conjI)
qed

text \<open>
  C4. The claim fails for the built-in sample: \<^verbatim>\<open>create_sample_dataset\<close> has no \<^verbatim>\<open>try\<close>, so
  an error of its writes leaves \<^verbatim>\<open>main\<close>. In a world that serves all four datasets and in
  which only the directory \<^verbatim>\<open>datasets/sample\<close> cannot be created, each of the four
  \<^verbatim>\<open>download_\<close> functions returns true when it is run, but \<^verbatim>\<open>main\<close> raises the OSError of
  the sample before it runs any of them, and no file is written.
\<close>

theorem sample_failure_aborts_run:
  "main example_python sample_blocked_world Map.empty =
     (Inl (OSError ''datasets/sample''), Map.empty) \<and>
   fst (download_mteb_sts17 example_python sample_blocked_world Map.empty) = True \<and>
   fst (download_squad_sample sample_blocked_world Map.empty) = True \<and>
   fst (download_quora_sample sample_blocked_world Map.empty) = True \<and>
   fst (download_nfcorpus_sample example_python sample_blocked_world Map.empty) = True"
proof -
  have "create_sample_dataset sample_blocked_world Map.empty =
      (Inl (OSError ''datasets/sample''), Map.empty)"
    by (simp add: create_sample_dataset_def write_batch_def then_io_def ensure_dir_def
        sample_blocked_world_def)
  then have "main example_python sample_blocked_world Map.empty =
     (Inl (OSError ''datasets/sample''), Map.empty)"
    by (simp add: main_def then_io_def)
  moreover have "fst (download_mteb_sts17 example_python sample_blocked_world Map.empty) = True"
    by (simp add: download_mteb_sts17_def download_result sample_blocked_world_def
        example_hub_def example_sts17_batch)
  moreover have "fst (download_squad_sample sample_blocked_world Map.empty) = True"
    by (simp add: download_squad_sample_def download_result sample_blocked_world_def
        example_hub_def example_squad_batch)
  moreover have "fst (download_quora_sample sample_blocked_world Map.empty) = True"
    by (simp add: download_quora_sample_def download_result sample_blocked_world_def
        example_hub_def example_quora_batch)
  moreover have "fst (download_nfcorpus_sample example_python sample_blocked_world Map.empty) = True"
    by (simp add: download_nfcorpus_sample_def download_result sample_blocked_world_def
        example_hub_def example_nfcorpus_batch)
  ultimately show ?thesis by (intro conjI)
qed

text \<open>
  C5. In the batch of every adapter, every query has as many relevance scores as relevant
  document IDs.
\<close>

theorem scores_aligned:
  assumes "normalize a py ds = Inr (qs, cs)" and "q \<in> set qs"
  shows "length (relevantDocs q) = length (relevanceScores q)"
  using normalize_wf [OF assms(1)] assms(2) by blast

theorem scores_aligned_witness:
  "(\<exists>qs cs q. normalize Sample example_python [] = Inr (qs, cs) \<and> q \<in> set qs \<and>
      length (relevantDocs q) = length (relevanceScores q)) \<and>
   (\<exists>qs cs q. normalize Sts17 example_python example_sts17 = Inr (qs, cs) \<and> q \<in> set qs \<and>
      length (relevantDocs q) = length (relevanceScores q)) \<and>
   (\<exists>qs cs q. normalize Squad example_python example_squad = Inr (qs, cs) \<and> q \<in> set qs \<and>
      length (relevantDocs q) = length (relevanceScores q)) \<and>
   (\<exists>qs cs q. normalize Quora example_python example_quora = Inr (qs, cs) \<and> q \<in> set qs \<and>
      length (relevantDocs q) = length (relevanceScores q)) \<and>
   (\<exists>qs cs q. normalize Nfcorpus example_python example_nfcorpus = Inr (qs, cs) \<and>
      q \<in> set qs \<and> length (relevantDocs q) = length (relevanceScores q))"
proof -
  have w: "\<exists>qs cs q. normalize a example_python ds = Inr (qs, cs) \<and> q \<in> set qs \<and>
      length (relevantDocs q) = length (relevanceScores q)"
    if "normalize a example_python ds = Inr (qs0, cs0)" "qs0 \<noteq> []" for a ds qs0 cs0
  proof -
    have "hd qs0 \<in> set qs0" using that(2) by simp
    with scores_aligned [OF that(1), of "hd qs0"] that(1) show ?thesis by blast
  qed
  have "\<exists>qs cs q. normalize Sample example_python [] = Inr (qs, cs) \<and> q \<in> set qs \<and>
      length (relevantDocs q) = length (relevanceScores q)"
    by (rule w [OF example_normalize(1)]) (simp add: sample_queries_def)
  moreover have "\<exists>qs cs q. normalize Sts17 example_python example_sts17 = Inr (qs, cs) \<and>
      q \<in> set qs \<and> length (relevantDocs q) = length (relevanceScores q)"
    by (rule w [OF trans [OF example_normalize(2) example_sts17_batch]]) simp
  moreover have "\<exists>qs cs q. normalize Squad example_python example_squad = Inr (qs, cs) \<and>
      q \<in> set qs \<and> length (relevantDocs q) = length (relevanceScores q)"
    by (rule w [OF trans [OF example_normalize(3) example_squad_batch]]) simp
  moreover have "\<exists>qs cs q. normalize Quora example_python example_quora = Inr (qs, cs) \<and>
      q \<in> set qs \<and> length (relevantDocs q) = length (relevanceScores q)"
    by (rule w [OF trans [OF example_normalize(4) example_quora_batch]]) simp
  moreover have "\<exists>qs cs q. normalize Nfcorpus example_python example_nfcorpus = Inr (qs, cs) \<and>
      q \<in> set qs \<and> length (relevantDocs q) = length (relevanceScores q)"
    by (rule w [OF trans [OF example_normalize(5) example_nfcorpus_batch]]) simp
  ultimately show ?thesis by (intro conjI)
qed

text \<open>
  C6. No adapter emits a query with an empty list of relevant documents, and a row without
  a relevance judgment produces no query. The rows without a judgment are the NFCorpus
  rows without \<^verbatim>\<open>corpus-id\<close> and the Quora rows whose \<^verbatim>\<open>is_duplicate\<close> is false (every
  STS-17 and SQuAD row has one judgment): on such a row the iteration leaves the list of
  queries as it was, and the batch has no query with the ID of the row's position.
\<close>

theorem no_query_without_judgment:
  "(normalize a py ds = Inr (qs, cs) \<and> q \<in> set qs \<longrightarrow> relevantDocs q \<noteq> []) \<and>
   (\<not> contains item ''corpus-id'' \<and>
      nfcorpus_body py (qsa, csa, seena) (i, item) = Inr (qsb, csb, seenb) \<longrightarrow>
        qsb = qsa \<and> csb = csa) \<and>
   (nfcorpus_loop py dn = Inr (qn, cn) \<and> j < length dn \<and> \<not> contains (dn ! j) ''corpus-id'' \<longrightarrow>
      ''nfcorpus-q-'' @ str_nat j \<notin> qid ` set qn) \<and>
   (getitem item' ''is_duplicate'' = Inr d \<and> \<not> truthy d \<and>
      quora_body (qsc, csc, seenc) (i', item') = Inr (qsd, csd, seend) \<longrightarrow> qsd = qsc) \<and>
   (quora_loop dq = Inr (qq, cq) \<and> j' < length dq \<and>
      getitem (dq ! j') ''is_duplicate'' = Inr d' \<and> \<not> truthy d' \<longrightarrow>
      ''quora-pair-'' @ str_nat j' \<notin> qid ` set qq)"
proof -
  have c1: "relevantDocs q \<noteq> []" if "normalize a py ds = Inr (qs, cs)" "q \<in> set qs"
    using normalize_wf [OF that(1)] that(2) by blast
  have c2: "qsb = qsa \<and> csb = csa"
    if "\<not> contains item ''corpus-id''"
      "nfcorpus_body py (qsa, csa, seena) (i, item) = Inr (qsb, csb, seenb)"
    using nfcorpus_body_Inr [OF that(2)] that(1) by auto
  have c3: "''nfcorpus-q-'' @ str_nat j \<notin> qid ` set qn"
    if "nfcorpus_loop py dn = Inr (qn, cn)" "j < length dn" "\<not> contains (dn ! j) ''corpus-id''"
  proof
    assume "''nfcorpus-q-'' @ str_nat j \<in> qid ` set qn"
    then obtain p where p: "p \<in> set qn" "qid p = ''nfcorpus-q-'' @ str_nat j" by auto
    from nfcorpus_loop_rows [OF that(1)] p(1) obtain k where
      "qid p = ''nfcorpus-q-'' @ str_nat k" "contains (dn ! k) ''corpus-id''" by blast
    with p(2) that(3) show False by simp
  qed
  have c4: "qsd = qsc"
    if "getitem item' ''is_duplicate'' = Inr d" "\<not> truthy d"
      "quora_body (qsc, csc, seenc) (i', item') = Inr (qsd, csd, seend)"
    using quora_body_Inr [OF that(3)] that(1,2) by auto
  have c5: "''quora-pair-'' @ str_nat j' \<notin> qid ` set qq"
    if "quora_loop dq = Inr (qq, cq)" "j' < length dq"
      "getitem (dq ! j') ''is_duplicate'' = Inr d'" "\<not> truthy d'"
  proof
    assume "''quora-pair-'' @ str_nat j' \<in> qid ` set qq"
    then obtain p where p: "p \<in> set qq" "qid p = ''quora-pair-'' @ str_nat j'" by auto
    from quora_loop_rows [OF that(1)] p(1) obtain k e where
      "qid p = ''quora-pair-'' @ str_nat k" "getitem (dq ! k) ''is_duplicate'' = Inr e" "truthy e"
      by blast
    with p(2) that(3,4) show False by simp
  qed
  from c1 c2 c3 c4 c5 show ?thesis by blast
qed

theorem no_query_without_judgment_witness:
  "(\<exists>qs cs q. normalize Nfcorpus example_python example_nfcorpus = Inr (qs, cs) \<and>
      q \<in> set qs \<and> relevantDocs q \<noteq> []) \<and>
   \<not> contains (example_nfcorpus ! 0) ''corpus-id'' \<and>
   nfcorpus_body example_python ([], [], []) (0, example_nfcorpus ! 0) = Inr ([], [], []) \<and>
   (\<exists>qn cn. nfcorpus_loop example_python example_nfcorpus = Inr (qn, cn) \<and>
      ''nfcorpus-q-'' @ str_nat 0 \<notin> qid ` set qn) \<and>
   getitem (example_quora ! 1) ''is_duplicate'' = Inr (VBool False) \<and>
   \<not> truthy (VBool False) \<and>
   (\<exists>csd seend. quora_body ([], [], []) (1, example_quora ! 1) = Inr ([], csd, seend)) \<and>
   (\<exists>qq cq. quora_loop example_quora = Inr (qq, cq) \<and>
      ''quora-pair-'' @ str_nat 1 \<notin> qid ` set qq)"
proof -
  obtain qn cn where n: "nfcorpus_loop example_python example_nfcorpus = Inr (qn, cn)"
    and nq: "qn \<noteq> []"
    using example_nfcorpus_batch by simp
  obtain qq cq where q: "quora_loop example_quora = Inr (qq, cq)"
    using example_quora_batch by simp
  have n0: "\<not> contains (example_nfcorpus ! 0) ''corpus-id''"
    by (simp add: example_nfcorpus_def contains_def)
  have nb: "nfcorpus_body example_python ([], [], []) (0, example_nfcorpus ! 0) = Inr ([], [], [])"
    by (simp add: nfcorpus_body_def example_nfcorpus_def contains_def getitem_def)
  have qd: "getitem (example_quora ! 1) ''is_duplicate'' = Inr (VBool False)"
    by (simp add: example_quora_def getitem_def)
  obtain csd seend where
    qb: "quora_body ([], [], []) (1, example_quora ! 1) = Inr ([], csd, seend)"
    by (simp add: quora_body_def quora_add_def quora_question_def getitem_def
        example_quora_def Let_def)
  have hq: "hd qn \<in> set qn" using nq by simp
  have len: "0 < length example_nfcorpus" "1 < length example_quora"
    by (simp_all add: example_nfcorpus_def example_quora_def)
  note T = no_query_without_judgment [where a = Nfcorpus and py = example_python and
      ds = example_nfcorpus and qs = qn and cs = cn and q = "hd qn" and
      item = "example_nfcorpus ! 0" and qsa = "[]" and csa = "[]" and seena = "[]" and i = 0 and
      qsb = "[]" and csb = "[]" and seenb = "[]" and dn = example_nfcorpus and qn = qn and
      cn = cn and j = 0 and item' = "example_quora ! 1" and d = "VBool False" and
      qsc = "[]" and csc = "[]" and seenc = "[]" and i' = 1 and qsd = "[]" and csd = csd and
      seend = seend and dq = example_quora and qq = qq and cq = cq and j' = 1 and
      d' = "VBool False"]
  from T n hq have "relevantDocs (hd qn) \<noteq> []" by simp
  with n hq have a: "\<exists>qs cs q. normalize Nfcorpus example_python example_nfcorpus = Inr (qs, cs) \<and>
      q \<in> set qs \<and> relevantDocs q \<noteq> []" by auto
  from T n n0 len have "''nfcorpus-q-'' @ str_nat 0 \<notin> qid ` set qn" by blast
  with n have b: "\<exists>qn cn. nfcorpus_loop example_python example_nfcorpus = Inr (qn, cn) \<and>
      ''nfcorpus-q-'' @ str_nat 0 \<notin> qid ` set qn" by blast
  from T q qd len have "''quora-pair-'' @ str_nat 1 \<notin> qid ` set qq" by simp
  with q have c: "\<exists>qq cq. quora_loop example_quora = Inr (qq, cq) \<and>
      ''quora-pair-'' @ str_nat 1 \<notin> qid ` set qq" by blast
  from qb have e: "\<exists>csd seend. quora_body ([], [], []) (1, example_quora ! 1) = Inr ([], csd, seend)"
    by blast
  from a n0 nb b qd e c show ?thesis by simp
qed

text \<open>
  C7. The exit status of the script is 0 exactly when the \<^verbatim>\<open>datasets\<close> library could be
  imported (otherwise no adapter runs) and each of the five adapters, the built-in sample
  included, returned true; in every other case it is 1. The result of an adapter does not
  depend on the files written before it runs, so all five are taken in the initial state.
\<close>

theorem exit_status:
  "fst (script py w fs) =
     (if datasets_installed w \<and> (\<forall>a. fst (run a py w fs) = Inr True) then 0 else 1)"
proof (cases "datasets_installed w")
  case False
  then show ?thesis by (simp add: script_def)
next
  case True
  obtain r fs' where m: "main py w fs = (r, fs')" by force
  from main_result [of py w fs] m
  have r: "r = (case fst (create_sample_dataset w fs) of
        Inl e \<Rightarrow> Inl e
      | Inr r \<Rightarrow>
          Inr (r \<and> fst (download_mteb_sts17 py w fs) \<and> fst (download_squad_sample w fs) \<and>
               fst (download_quora_sample w fs) \<and> fst (download_nfcorpus_sample py w fs)))"
    by simp
  show ?thesis
  proof (cases "fst (create_sample_dataset w fs)")
    case (Inl e)
    with True m r show ?thesis by (simp add: script_def all_adapters)
  next
    case (Inr b)
    with True m r show ?thesis by (auto simp: script_def all_adapters)
  qed
qed

theorem exit_status_witness:
  "fst (script example_python example_world Map.empty) = 0 \<and>
   fst (script example_python sample_blocked_world Map.empty) = 1"
proof -
  have "fst (run Sample example_python sample_blocked_world Map.empty) \<noteq> Inr True"
    by (simp add: create_sample_dataset_def write_batch_result sample_blocked_world_def)
  then have "\<not> (\<forall>a. fst (run a example_python sample_blocked_world Map.empty) = Inr True)"
    by blast
  moreover have "datasets_installed example_world" by (simp add: example_world_def)
  ultimately show ?thesis
    using exit_status [of example_python example_world Map.empty]
      exit_status [of example_python sample_blocked_world Map.empty]
    by (simp add: example_world_results)
qed

text \<open>
  C8. In the batch of every adapter the document IDs are pairwise distinct and the query
  IDs are pairwise distinct. For SQuAD and Quora the document IDs are the prefix followed
  by 0, 1, 2, ... in the order of the corpus (the size of the deduplication table when
  the document was inserted); for STS-17 the document ID and for STS-17 and SQuAD the
  query ID embeds the position of the row.
\<close>

theorem ids_unique:
  assumes "normalize a py ds = Inr (qs, cs)"
  shows "distinct (map docid cs) \<and> distinct (map qid qs) \<and>
         (a = Squad \<longrightarrow>
            map docid cs = map (\<lambda>n. ''squad-doc-'' @ str_nat n) [0..<length cs] \<and>
            map qid qs = map (\<lambda>n. ''squad-q-'' @ str_nat n) [0..<length ds]) \<and>
         (a = Quora \<longrightarrow>
            map docid cs = map (\<lambda>n. ''quora-q-'' @ str_nat n) [0..<length cs]) \<and>
         (a = Sts17 \<longrightarrow>
            map docid cs = map (\<lambda>n. ''sts17-doc-'' @ str_nat n) [0..<length ds] \<and>
            map qid qs = map (\<lambda>n. ''sts17-en-en-'' @ str_nat n) [0..<length ds])"
proof -
  have squad: "map docid cs = map (\<lambda>n. ''squad-doc-'' @ str_nat n) [0..<length cs] \<and>
            map qid qs = map (\<lambda>n. ''squad-q-'' @ str_nat n) [0..<length ds]" if "a = Squad"
  proof -
    from assms that have "squad_loop ds = Inr (qs, cs)" by simp
    from squad_loop_rows [OF this] obtain seen where
      tm: "table_mirrors ''squad-doc-'' seen cs" and len: "length qs = length ds" and
      rows: "\<forall>j<length ds. qid (qs ! j) = ''squad-q-'' @ str_nat j" by blast
    have "map qid qs = map (\<lambda>n. ''squad-q-'' @ str_nat n) [0..<length ds]"
      using rows len by (intro nth_equalityI) simp_all
    with table_mirrors_docids [OF tm] show ?thesis by blast
  qed
  have quora: "map docid cs = map (\<lambda>n. ''quora-q-'' @ str_nat n) [0..<length cs]" if "a = Quora"
  proof -
    from assms that have "quora_loop ds = Inr (qs, cs)" by simp
    from quora_loop_rows [OF this] obtain seen where
      tm: "table_mirrors ''quora-q-'' seen cs" by blast
    from table_mirrors_docids [OF tm] show ?thesis .
  qed
  have sts17: "map docid cs = map (\<lambda>n. ''sts17-doc-'' @ str_nat n) [0..<length ds] \<and>
            map qid qs = map (\<lambda>n. ''sts17-en-en-'' @ str_nat n) [0..<length ds]" if "a = Sts17"
  proof -
    from assms that have "sts17_loop py ds = Inr (qs, cs)" by simp
    note rows = sts17_loop_rows [OF this]
    have "map docid cs = map (\<lambda>n. ''sts17-doc-'' @ str_nat n) [0..<length ds]"
      using rows by (intro nth_equalityI) simp_all
    moreover have "map qid qs = map (\<lambda>n. ''sts17-en-en-'' @ str_nat n) [0..<length ds]"
      using rows by (intro nth_equalityI) simp_all
    ultimately show ?thesis by blast
  qed
  from normalize_wf [OF assms] squad quora sts17 show ?thesis by blast
qed

theorem ids_unique_witness:
  "(\<exists>qs cs. normalize Sample example_python [] = Inr (qs, cs) \<and>
      distinct (map docid cs) \<and> distinct (map qid qs)) \<and>
   (\<exists>qs cs. normalize Sts17 example_python example_sts17 = Inr (qs, cs) \<and>
      distinct (map docid cs) \<and> distinct (map qid qs)) \<and>
   (\<exists>qs cs. normalize Squad example_python example_squad = Inr (qs, cs) \<and>
      distinct (map docid cs) \<and> distinct (map qid qs)) \<and>
   (\<exists>qs cs. normalize Quora example_python example_quora = Inr (qs, cs) \<and>
      distinct (map docid cs) \<and> distinct (map qid qs)) \<and>
   (\<exists>qs cs. normalize Nfcorpus example_python example_nfcorpus = Inr (qs, cs) \<and>
      distinct (map docid cs) \<and> distinct (map qid qs))"
proof -
  have w: "\<exists>qs cs. normalize a example_python ds = Inr (qs, cs) \<and>
      distinct (map docid cs) \<and> distinct (map qid qs)"
    if "normalize a example_python ds = Inr (qs0, cs0)" for a ds qs0 cs0
    using ids_unique [OF that] that by blast
  show ?thesis
    using w [OF example_normalize(1)] w [OF trans [OF example_normalize(2) example_sts17_batch]]
      w [OF trans [OF example_normalize(3) example_squad_batch]]
      w [OF trans [OF example_normalize(4) example_quora_batch]]
      w [OF trans [OF example_normalize(5) example_nfcorpus_batch]]
    by (intro conjI)
qed

text \<open>
  C9. With the division by 5.0 that the STS-17 adapter applies to a raw score, the raw
  score 5 becomes exactly 1.0, the raw score 0 becomes exactly 0.0, and every raw score
  between 0 and 5 becomes a score between 0 and 1; the adapter stores exactly that
  quotient as the relevance score of the row's query. The raw score may be a float or
  an int. The rounding of the float division is any monotone function that leaves the
  floats 0, 1 and 5 unchanged, as rounding to the nearest float does.
\<close>

theorem score_normalizer_unit_interval:
  assumes "mono (fround py)" and "fround py 0 = 0" and "fround py 1 = 1" and "fround py 5 = 5"
  shows "truediv5 py (VFloat 5) = Inr 1 \<and> truediv5 py (VFloat 0) = Inr 0 \<and>
         truediv5 py (VInt 5) = Inr 1 \<and> truediv5 py (VInt 0) = Inr 0 \<and>
         (0 \<le> x \<and> x \<le> 5 \<longrightarrow>
            (\<exists>y. truediv5 py (VFloat x) = Inr y \<and> 0 \<le> y \<and> y \<le> 1)) \<and>
         (0 \<le> n \<and> n \<le> 5 \<longrightarrow>
            (\<exists>y. truediv5 py (VInt n) = Inr y \<and> 0 \<le> y \<and> y \<le> 1)) \<and>
         (sts17_loop py ds = Inr (qs, cs) \<and> i < length ds \<longrightarrow>
            (\<exists>sc y. getitem (ds ! i) ''score'' = Inr sc \<and> truediv5 py sc = Inr y \<and>
                    relevanceScores (qs ! i) = [y]))"
proof -
  note m = assms(1) and z = assms(2) and o = assms(3) and f = assms(4)
  have c1: "truediv5 py (VFloat 5) = Inr 1" "truediv5 py (VFloat 0) = Inr 0"
    using z o by simp_all
  have c2: "truediv5 py (VInt 5) = Inr 1" "truediv5 py (VInt 0) = Inr 0"
    using z o f by (simp_all add: float_of_int_def)
  have c3: "\<exists>y. truediv5 py (VFloat x) = Inr y \<and> 0 \<le> y \<and> y \<le> 1" if "0 \<le> x" "x \<le> 5"
    using truediv5_bounds [OF m z o that] by simp
  have c4: "\<exists>y. truediv5 py (VInt n) = Inr y \<and> 0 \<le> y \<and> y \<le> 1" if n: "0 \<le> n" "n \<le> 5"
  proof -
    have small: "\<bar>n\<bar> < 2 ^ 1024 - 2 ^ 970" using n by simp
    have "fround py 0 \<le> fround py (of_int n)" using n by (intro monoD [OF m]) simp
    moreover have "fround py (of_int n) \<le> fround py 5" using n by (intro monoD [OF m]) simp
    ultimately have "0 \<le> fround py (of_int n)" "fround py (of_int n) \<le> 5"
      using z f by simp_all
    from truediv5_bounds [OF m z o this] small show ?thesis
      by (simp add: float_of_int_def)
  qed
  have c5: "\<exists>sc y. getitem (ds ! i) ''score'' = Inr sc \<and> truediv5 py sc = Inr y \<and>
                    relevanceScores (qs ! i) = [y]"
    if "sts17_loop py ds = Inr (qs, cs)" "i < length ds"
    using sts17_loop_rows [OF that(1)] that(2) by blast
  from c1 c2 c3 c4 c5 show ?thesis by blast
qed

theorem score_normalizer_unit_interval_witness:
  "mono (fround \<lparr>fround = (\<lambda>x. x), repr = (\<lambda>v. [])\<rparr>) \<and>
   (0::real) \<le> 5 / 2 \<and> (5 / 2 :: real) \<le> 5 \<and> (0::int) \<le> 3 \<and> (3::int) \<le> 5 \<and>
   sts17_loop \<lparr>fround = (\<lambda>x. x), repr = (\<lambda>v. [])\<rparr>
     [[(''sentence1'', VStr ''a''), (''sentence2'', VStr ''b''), (''score'', VFloat 5)]] =
     Inr ([\<lparr>qid = ''sts17-en-en-0'', query_text = VStr ''a'',
             relevantDocs = [''sts17-doc-0''], relevanceScores = [1],
             tags = [''sts'', ''en-en'']\<rparr>],
          [\<lparr>docid = ''sts17-doc-0'', content = VStr ''b'',
             metadata = [(''score'', VFloat 5)]\<rparr>]) \<and>
   truediv5 \<lparr>fround = (\<lambda>x. x), repr = (\<lambda>v. [])\<rparr> (VFloat 5) = Inr 1 \<and>
   truediv5 \<lparr>fround = (\<lambda>x. x), repr = (\<lambda>v. [])\<rparr> (VFloat 0) = Inr 0 \<and>
   truediv5 \<lparr>fround = (\<lambda>x. x), repr = (\<lambda>v. [])\<rparr> (VFloat (5 / 2)) = Inr (1 / 2) \<and>
   truediv5 \<lparr>fround = (\<lambda>x. x), repr = (\<lambda>v. [])\<rparr> (VInt 3) = Inr (3 / 5)"
proof -
  let ?py = "\<lparr>fround = (\<lambda>x::real. x), repr = (\<lambda>v::val. [])\<rparr>"
  let ?ds = "[[(''sentence1'', VStr ''a''), (''sentence2'', VStr ''b''), (''score'', VFloat 5)]]"
  have m: "mono (fround ?py)" by (simp add: mono_def)
  have l: "sts17_loop ?py ?ds =
     Inr ([\<lparr>qid = ''sts17-en-en-0'', query_text = VStr ''a'',
             relevantDocs = [''sts17-doc-0''], relevanceScores = [1],
             tags = [''sts'', ''en-en'']\<rparr>],
          [\<lparr>docid = ''sts17-doc-0'', content = VStr ''b'',
             metadata = [(''score'', VFloat 5)]\<rparr>])"
    by (simp add: sts17_loop_def sts17_body_def getitem_def str_nat_small)
  from score_normalizer_unit_interval [OF m, of "5 / 2" 3 ?ds _ _ 0] l m
  show ?thesis by (simp add: float_of_int_def)
qed

text \<open>
  C10. When the STS-17 loop returns, it has appended for the row at every position \<open>i\<close>
  exactly one query and exactly one document: both lists are as long as the dataset,
  the document at position \<open>i\<close> has the ID \<open>sts17-doc-i\<close> and the second sentence of
  row \<open>i\<close> as content, the query at position \<open>i\<close> has exactly that one ID as
  relevant documents, and documents at different positions have different IDs, whatever
  their contents are. The witness has two rows with the same second sentence.
\<close>

theorem sts17_one_document_per_row:
  assumes "sts17_loop py ds = Inr (qs, cs)"
  shows "length qs = length ds \<and> length cs = length ds \<and>
         (\<forall>i<length ds.
            docid (cs ! i) = ''sts17-doc-'' @ str_nat i \<and>
            relevantDocs (qs ! i) = [''sts17-doc-'' @ str_nat i] \<and>
            getitem (ds ! i) ''sentence2'' = Inr (content (cs ! i))) \<and>
         (\<forall>i<length ds. \<forall>j<length ds. i \<noteq> j \<longrightarrow> docid (cs ! i) \<noteq> docid (cs ! j))"
proof -
  note rows = sts17_loop_rows [OF assms]
  have "docid (cs ! i) \<noteq> docid (cs ! j)" if "i < length ds" "j < length ds" "i \<noteq> j" for i j
    using rows that by simp
  with rows show ?thesis by blast
qed

theorem sts17_one_document_per_row_witness:
  "sts17_loop \<lparr>fround = (\<lambda>x. x), repr = (\<lambda>v. [])\<rparr>
     [[(''sentence1'', VStr ''a''), (''sentence2'', VStr ''same''), (''score'', VFloat 5)],
      [(''sentence1'', VStr ''b''), (''sentence2'', VStr ''same''), (''score'', VInt 0)]] =
     Inr ([\<lparr>qid = ''sts17-en-en-0'', query_text = VStr ''a'',
             relevantDocs = [''sts17-doc-0''], relevanceScores = [1],
             tags = [''sts'', ''en-en'']\<rparr>,
           \<lparr>qid = ''sts17-en-en-1'', query_text = VStr ''b'',
             relevantDocs = [''sts17-doc-1''], relevanceScores = [0],
             tags = [''sts'', ''en-en'']\<rparr>],
          [\<lparr>docid = ''sts17-doc-0'', content = VStr ''same'',
             metadata = [(''score'', VFloat 5)]\<rparr>,
           \<lparr>docid = ''sts17-doc-1'', content = VStr ''same'',
             metadata = [(''score'', VInt 0)]\<rparr>]) \<and>
   ''sts17-doc-'' @ str_nat 0 \<noteq> ''sts17-doc-'' @ str_nat 1"
proof -
  let ?py = "\<lparr>fround = (\<lambda>x::real. x), repr = (\<lambda>v::val. [])\<rparr>"
  let ?ds = "[[(''sentence1'', VStr ''a''), (''sentence2'', VStr ''same''), (''score'', VFloat 5)],
      [(''sentence1'', VStr ''b''), (''sentence2'', VStr ''same''), (''score'', VInt 0)]]"
  have l: "sts17_loop ?py ?ds =
     Inr ([\<lparr>qid = ''sts17-en-en-0'', query_text = VStr ''a'',
             relevantDocs = [''sts17-doc-0''], relevanceScores = [1],
             tags = [''sts'', ''en-en'']\<rparr>,
           \<lparr>qid = ''sts17-en-en-1'', query_text = VStr ''b'',
             relevantDocs = [''sts17-doc-1''], relevanceScores = [0],
             tags = [''sts'', ''en-en'']\<rparr>],
          [\<lparr>docid = ''sts17-doc-0'', content = VStr ''same'',
             metadata = [(''score'', VFloat 5)]\<rparr>,
           \<lparr>docid = ''sts17-doc-1'', content = VStr ''same'',
             metadata = [(''score'', VInt 0)]\<rparr>])"
    by (simp add: sts17_loop_def sts17_body_def getitem_def str_nat_small float_of_int_def)
  from sts17_one_document_per_row [OF l] l show ?thesis
    by simp
qed

end
